theory Spec2Isabelle
  imports Main "HOL-Library.Sublist"
begin

section \<open>Python values\<close>

text \<open>
  Dynamically typed values of the agent core (tool outputs, tool-call dictionaries,
  ablation flags) are JSON-shaped. A dictionary is an association list in insertion
  order, looked up by its first matching key. Floating-point numbers are not part of
  the model. Characters are the code points 0..255.
\<close>

datatype json =
    JNull
  | JBool bool
  | JInt int
  | JStr string
  | JList "json list"
  | JObj "(string \<times> json) list"

type_synonym pydict = "(string \<times> json) list"

text \<open>Exceptions are values. \<open>Raised m\<close> is an exception of an external collaborator
  (model backend, tool implementation, database, event emitter) whose text is \<open>m\<close>.\<close>

datatype py_exception =
    KeyError string
  | TypeError
  | AttributeError
  | ValueError
  | JSONDecodeError
  | RecursionError
  | Raised string

text \<open>\<open>bool(v)\<close>: the truth value Python gives to a value.\<close>

fun truthy :: "json \<Rightarrow> bool" where
  "truthy JNull = False"
| "truthy (JBool b) = b"
| "truthy (JInt n) = (n \<noteq> 0)"
| "truthy (JStr s) = (s \<noteq> [])"
| "truthy (JList xs) = (xs \<noteq> [])"
| "truthy (JObj kvs) = (kvs \<noteq> [])"

text \<open>\<open>d.get(k, default)\<close> on a dictionary.\<close>

definition dict_get :: "pydict \<Rightarrow> string \<Rightarrow> json \<Rightarrow> json" where
  "dict_get d k dflt = (case map_of d k of None \<Rightarrow> dflt | Some v \<Rightarrow> v)"

text \<open>\<open>v[k]\<close> with a string key: a dictionary without the key raises KeyError, every
  other kind of value raises TypeError.\<close>

fun py_getitem :: "json \<Rightarrow> string \<Rightarrow> py_exception + json" where
  "py_getitem (JObj d) k = (case map_of d k of None \<Rightarrow> Inl (KeyError k) | Some v \<Rightarrow> Inr v)"
| "py_getitem v k = Inl TypeError"

text \<open>\<open>v.get(k, default)\<close>: only a dictionary has the method.\<close>

fun py_get :: "json \<Rightarrow> string \<Rightarrow> json \<Rightarrow> py_exception + json" where
  "py_get (JObj d) k dflt = Inr (dict_get d k dflt)"
| "py_get v k dflt = Inl AttributeError"

text \<open>\<open>v[:n]\<close>: strings and lists are sliced, every other value raises (a
  dictionary raises TypeError up to Python 3.11 and KeyError from 3.12 on; the model
  raises TypeError).\<close>

fun py_slice_to :: "json \<Rightarrow> nat \<Rightarrow> py_exception + json" where
  "py_slice_to (JStr s) n = Inr (JStr (take n s))"
| "py_slice_to (JList xs) n = Inr (JList (take n xs))"
| "py_slice_to v n = Inl TypeError"

text \<open>\<open>for x in v\<close>: a list yields its elements, a string its characters, a dictionary
  its keys; None, booleans and integers are not iterable.\<close>

fun py_iter :: "json \<Rightarrow> py_exception + json list" where
  "py_iter (JList xs) = Inr xs"
| "py_iter (JStr s) = Inr (map (\<lambda>c. JStr [c]) s)"
| "py_iter (JObj d) = Inr (map (\<lambda>kv. JStr (fst kv)) d)"
| "py_iter v = Inl TypeError"

subsection \<open>Strings\<close>

text \<open>\<open>s.find(sub)\<close>: the first index at which \<open>sub\<close> occurs in \<open>s\<close>. Then
  \<open>sub in s\<close> is \<open>py_find sub s \<noteq> None\<close> and \<open>s.index(sub)\<close> is its value.\<close>

fun py_find :: "string \<Rightarrow> string \<Rightarrow> nat option" where
  "py_find sub [] = (if sub = [] then Some 0 else None)"
| "py_find sub (c # cs) =
     (if prefix sub (c # cs) then Some 0 else map_option Suc (py_find sub cs))"

definition py_in :: "string \<Rightarrow> string \<Rightarrow> bool" where
  "py_in sub s = (py_find sub s \<noteq> None)"

text \<open>\<open>s[i:j]\<close> for indices within the string; empty when \<open>j \<le> i\<close>.\<close>

definition py_slice :: "string \<Rightarrow> nat \<Rightarrow> nat \<Rightarrow> string" where
  "py_slice s i j = take (j - i) (drop i s)"

text \<open>\<open>c.isspace()\<close> on the code points 0..255.\<close>

definition is_space :: "char \<Rightarrow> bool" where
  "is_space c = (let n = (of_char c :: nat) in
     (9 \<le> n \<and> n \<le> 13) \<or> (28 \<le> n \<and> n \<le> 32) \<or> n = 133 \<or> n = 160)"

definition py_strip :: "string \<Rightarrow> string" where
  "py_strip s = rev (dropWhile is_space (rev (dropWhile is_space s)))"

text \<open>\<open>s.lower()\<close> on the code points 0..255.\<close>

definition lower_char :: "char \<Rightarrow> char" where
  "lower_char c = (let n = (of_char c :: nat) in
     if (65 \<le> n \<and> n \<le> 90) \<or> (192 \<le> n \<and> n \<le> 222 \<and> n \<noteq> 215)
     then char_of (n + 32) else c)"

definition py_lower :: "string \<Rightarrow> string" where
  "py_lower s = map lower_char s"

section \<open>Tool contract and registry (agent/tools.py)\<close>

text \<open>The dataclass \<open>ToolResult\<close>; its fields \<open>output\<close> and \<open>error\<close> are
  \<open>tool_output\<close> and \<open>tool_error\<close> here.\<close>

record ToolResult =
  success :: bool
  tool_output :: json
  tool_error :: "string option"
  metadata :: pydict

text \<open>\<open>ToolResult(success=False, output=None, error=msg)\<close>.\<close>

definition failed_result :: "string \<Rightarrow> ToolResult" where
  "failed_result msg =
     \<lparr>success = False, tool_output = JNull, tool_error = Some msg, metadata = []\<rparr>"

text \<open>The tool classes registered by \<open>ToolSet.__init__\<close>, with their constructor
  arguments.\<close>

datatype tool =
    WebSearchTool
  | WebBrowseTool
  | BatchWebSurferTool
  | FileWriteTool string
  | FileReadTool string
  | TodoTool string
  | FileEditTool string
  | ReflectTool
  | CrossValidateTool

record ToolSet =
  context_id :: string
  workdir :: string
  ablations :: pydict
  tools :: "(string \<times> tool) list"

text \<open>\<open>ToolSet.__init__(context_id, workdir, ablations=None)\<close>. \<open>ablations or {}\<close>
  replaces None by the empty dictionary; a flag is read with \<open>.get(flag, True)\<close> and
  tested for truth.\<close>

definition ToolSet_init :: "string \<Rightarrow> string \<Rightarrow> pydict option \<Rightarrow> ToolSet" where
  "ToolSet_init cid wd abl =
     (let ab = (case abl of None \<Rightarrow> [] | Some d \<Rightarrow> d);
          core = [(''web_search'', WebSearchTool),
                  (''web_browse'', WebBrowseTool),
                  (''batch_web_surfer'', BatchWebSurferTool),
                  (''file_write'', FileWriteTool wd),
                  (''file_read'', FileReadTool wd)];
          t1 = (if truthy (dict_get ab ''enable_todo_state'' (JBool True))
                then core @ [(''todo'', TodoTool cid)] else core);
          t2 = (if truthy (dict_get ab ''enable_patch_editing'' (JBool True))
                then t1 @ [(''file_edit'', FileEditTool wd)] else t1);
          t3 = (if truthy (dict_get ab ''enable_reflection'' (JBool True))
                then t2 @ [(''reflect'', ReflectTool), (''cross_validate'', CrossValidateTool)]
                else t2)
      in \<lparr>context_id = cid, workdir = wd, ablations = ab, tools = t3\<rparr>)"

text \<open>A flag of the ablations argument is on when it is absent or its value is true.\<close>

definition flag_on :: "pydict option \<Rightarrow> string \<Rightarrow> bool" where
  "flag_on abl k =
     (case abl of None \<Rightarrow> True
      | Some d \<Rightarrow> (case map_of d k of None \<Rightarrow> True | Some v \<Rightarrow> truthy v))"

definition list_tools :: "ToolSet \<Rightarrow> string list" where
  "list_tools ts = map fst (tools ts)"


section \<open>Model provider (agent/model_provider.py)\<close>

text \<open>A tool call is the dictionary
  \<open>{"id": ..., "type": "function", "function": {"name": ..., "arguments": ...}}\<close>.\<close>

record ChatMessage =
  role :: string
  content :: "string option"
  tool_calls :: "pydict list option"
  tool_call_id :: "json option"
  name :: "string option"

record ModelResponse =
  message :: ChatMessage
  finish_reason :: string
  usage :: "(string \<times> int) list"

text \<open>\<open>ModelResponse.has_tool_calls\<close> is \<open>bool(self.message.tool_calls)\<close>.\<close>

definition has_tool_calls :: "ModelResponse \<Rightarrow> bool" where
  "has_tool_calls r = (case tool_calls (message r) of None \<Rightarrow> False | Some tcs \<Rightarrow> tcs \<noteq> [])"

subsection \<open>Streamed completion\<close>

text \<open>The chunks of the provider's stream: \<open>chunk.choices[0].delta\<close> carries a text
  fragment and tool-call fragments, each fragment with its stream index.\<close>

record function_delta =
  fn_name :: "string option"
  fn_arguments :: "string option"

record tool_call_delta =
  index :: int
  delta_id :: "string option"
  delta_function :: "function_delta option"

record choice_delta =
  delta_content :: "string option"
  delta_tool_calls :: "tool_call_delta list option"

record stream_choice =
  delta :: choice_delta
  choice_finish_reason :: "string option"

record stream_chunk =
  choices :: "stream_choice list"

text \<open>An entry of \<open>accumulated_tool_calls\<close>: the dictionary
  \<open>{"id", "type": "function", "function": {"name", "arguments"}}\<close> under construction.
  The name is None when the fragment that created the entry had a function part
  without a name.\<close>

record partial_call =
  call_id :: string
  call_name :: "string option"
  call_arguments :: string

text \<open>\<open>accumulated_tool_calls\<close> is a dictionary keyed by stream index; its values are
  listed in insertion order.\<close>

type_synonym accumulated = "(int \<times> partial_call) list"

fun update_call :: "accumulated \<Rightarrow> int \<Rightarrow> (partial_call \<Rightarrow> partial_call) \<Rightarrow> accumulated" where
  "update_call [] i f = []"
| "update_call ((j, c) # rest) i f =
     (if j = i then (j, f c) # rest else (j, c) # update_call rest i f)"

text \<open>Python's \<open>if s:\<close> on an optional string.\<close>

definition str_truthy :: "string option \<Rightarrow> bool" where
  "str_truthy s = (case s of None \<Rightarrow> False | Some x \<Rightarrow> x \<noteq> [])"

text \<open>The body of \<open>for tc in delta.tool_calls\<close>.\<close>

definition accumulate_fragment :: "accumulated \<Rightarrow> tool_call_delta \<Rightarrow> accumulated" where
  "accumulate_fragment acc tc =
     (let idx = index tc;
          acc1 = (if map_of acc idx = None
                  then acc @ [(idx, \<lparr>call_id = (if str_truthy (delta_id tc) then the (delta_id tc) else []),
                                      call_name = (case delta_function tc of
                                                     None \<Rightarrow> Some []
                                                   | Some fn \<Rightarrow> fn_name fn),
                                      call_arguments = []\<rparr>)]
                  else acc);
          acc2 = (if str_truthy (delta_id tc)
                  then update_call acc1 idx (\<lambda>c. c\<lparr>call_id := the (delta_id tc)\<rparr>)
                  else acc1)
      in case delta_function tc of
           None \<Rightarrow> acc2
         | Some fn \<Rightarrow>
             (let acc3 = (if str_truthy (fn_name fn)
                          then update_call acc2 idx (\<lambda>c. c\<lparr>call_name := fn_name fn\<rparr>)
                          else acc2)
              in if str_truthy (fn_arguments fn)
                 then update_call acc3 idx
                        (\<lambda>c. c\<lparr>call_arguments := call_arguments c @ the (fn_arguments fn)\<rparr>)
                 else acc3))"

definition accumulate_fragments :: "accumulated \<Rightarrow> tool_call_delta list \<Rightarrow> accumulated" where
  "accumulate_fragments acc tcs = foldl accumulate_fragment acc tcs"

text \<open>The dictionary a stream entry is when it is yielded.\<close>

definition call_dict :: "partial_call \<Rightarrow> pydict" where
  "call_dict c =
     [(''id'', JStr (call_id c)),
      (''type'', JStr ''function''),
      (''function'', JObj [(''name'', (case call_name c of None \<Rightarrow> JNull | Some n \<Rightarrow> JStr n)),
                           (''arguments'', JStr (call_arguments c))])]"

text \<open>One chunk with a choice: the accumulators after it and the snapshot it yields.
  The snapshot is taken by value, as it reads at the moment of the yield.\<close>

definition stream_step ::
  "string \<times> accumulated \<Rightarrow> stream_choice \<Rightarrow> (string \<times> accumulated) \<times> ModelResponse" where
  "stream_step st choice =
     (let d = delta choice;
          text1 = (if str_truthy (delta_content d) then fst st @ the (delta_content d) else fst st);
          acc1 = (case delta_tool_calls d of
                    None \<Rightarrow> snd st
                  | Some tcs \<Rightarrow> accumulate_fragments (snd st) tcs)
      in ((text1, acc1),
          \<lparr>message = \<lparr>role = ''assistant'',
                       content = (if text1 \<noteq> [] then Some text1 else None),
                       tool_calls = (if acc1 \<noteq> [] then Some (map (\<lambda>p. call_dict (snd p)) acc1)
                                     else None),
                       tool_call_id = None,
                       name = None\<rparr>,
           finish_reason = (if str_truthy (choice_finish_reason choice)
                            then the (choice_finish_reason choice) else ''null''),
           usage = []\<rparr>))"

text \<open>\<open>async for chunk in stream\<close>: a chunk without choices is skipped, every other
  chunk yields one snapshot. The result is the sequence of snapshots in order.\<close>

fun stream_loop :: "string \<times> accumulated \<Rightarrow> stream_chunk list \<Rightarrow> ModelResponse list" where
  "stream_loop st [] = []"
| "stream_loop st (chunk # rest) =
     (case choices chunk of
        [] \<Rightarrow> stream_loop st rest
      | choice # others \<Rightarrow>
          (let (st1, snapshot) = stream_step st choice in snapshot # stream_loop st1 rest))"


text \<open>The fragments the stream processes, in arrival order, and the accumulator when
  the stream ends.\<close>

definition stream_fragments :: "stream_chunk list \<Rightarrow> tool_call_delta list" where
  "stream_fragments chunks =
     concat (map (\<lambda>chunk. case choices chunk of
                             [] \<Rightarrow> []
                           | choice # others \<Rightarrow>
                               (case delta_tool_calls (delta choice) of None \<Rightarrow> [] | Some tcs \<Rightarrow> tcs))
                 chunks)"


section \<open>The runtime of a run\<close>

text \<open>
  What the agent core calls and does not define is a parameter of the model. The type
  \<open>'w\<close> is the state of everything outside the agent state: the model backend, the
  state the tools keep, the file system and the clock. Every call of a collaborator
  takes the outside state and returns the new one, with either a value or the
  exception it raised.
  \<^item> \<open>json_loads\<close> is \<open>json.loads\<close> on a string: the decoded value, or the
    exception it raises. That is JSONDecodeError for most texts that are not JSON, and
    can be another one (RecursionError for a text of very many opening brackets).
  \<^item> \<open>json_dumps\<close> is \<open>json.dumps\<close>.
  \<^item> \<open>builtin_str\<close> is \<open>str()\<close> on a value that is not a string.
  \<^item> \<open>utcnow\<close> is \<open>datetime.utcnow().isoformat()\<close>.
  \<^item> \<open>tool_execute t kwargs\<close> is \<open>t.execute(**kwargs)\<close> of a registered tool.
  \<^item> \<open>chat_completion msgs\<close> is \<open>provider.chat_completion\<close> on the message history
    (the tool schemas and sampling parameters are the same at every step of a run).
  \<^item> \<open>late_run step max\<close> is the floating-point comparison \<open>step > max * 0.7\<close>.
\<close>

record 'w runtime =
  json_loads :: "string \<Rightarrow> py_exception + json"
  json_dumps :: "json \<Rightarrow> string"
  builtin_str :: "json \<Rightarrow> string"
  utcnow :: "'w \<Rightarrow> string \<times> 'w"
  tool_execute :: "tool \<Rightarrow> pydict \<Rightarrow> 'w \<Rightarrow> (py_exception + ToolResult) \<times> 'w"
  chat_completion :: "ChatMessage list \<Rightarrow> 'w \<Rightarrow> (py_exception + ModelResponse) \<times> 'w"
  late_run :: "int \<Rightarrow> int \<Rightarrow> bool"

text \<open>\<open>str(v)\<close>, and \<open>{v}\<close> in an f-string.\<close>

definition py_str :: "'w runtime \<Rightarrow> json \<Rightarrow> string" where
  "py_str rt v = (case v of JStr s \<Rightarrow> s | _ \<Rightarrow> builtin_str rt v)"

subsection \<open>ToolSet dispatch\<close>

text \<open>\<open>ToolSet.get_tool\<close> is \<open>self.tools.get(name)\<close>: a list or a dictionary is not
  hashable, and a hashable value that is not a string is no key of the registry.\<close>

fun get_tool :: "ToolSet \<Rightarrow> json \<Rightarrow> py_exception + tool option" where
  "get_tool ts (JStr n) = Inr (map_of (tools ts) n)"
| "get_tool ts (JList xs) = Inl TypeError"
| "get_tool ts (JObj d) = Inl TypeError"
| "get_tool ts v = Inr None"

definition ToolSet_execute ::
  "'w runtime \<Rightarrow> ToolSet \<Rightarrow> json \<Rightarrow> pydict \<Rightarrow> 'w \<Rightarrow> (py_exception + ToolResult) \<times> 'w" where
  "ToolSet_execute rt ts tool_name kwargs w =
     (case get_tool ts tool_name of
        Inl e \<Rightarrow> (Inl e, w)
      | Inr None \<Rightarrow>
          (Inr (failed_result (''Unknown tool: '' @ py_str rt tool_name)), w)
      | Inr (Some t) \<Rightarrow> tool_execute rt t kwargs w)"

section \<open>Agent state (agent/react_agent.py)\<close>

text \<open>The entries of \<open>state.tool_calls\<close>, \<open>state.evidence\<close> and \<open>state.claims\<close>. The
  keys \<open>success\<close> and \<open>text\<close> are \<open>call_success\<close> and \<open>claim_text\<close> here.\<close>

record tool_call_record =
  tool :: json
  args :: json
  call_success :: bool
  timestamp :: string

record evidence_entry =
  source_url :: json
  source_title :: json
  snippet :: json
  retrieved_at :: string

record claim_entry =
  claim_text :: json
  status :: json
  supporting_sources :: json

text \<open>\<open>AgentState\<close>. Its field \<open>tool_calls\<close> is \<open>tool_call_log\<close> here. The source
  stores \<open>str(e)\<close> in \<open>error\<close>; the model keeps the exception.\<close>

record AgentState =
  run_id :: string
  messages :: "ChatMessage list"
  current_phase :: string
  step_count :: int
  token_usage :: "(string \<times> int) list"
  tool_call_log :: "tool_call_record list"
  evidence :: "evidence_entry list"
  claims :: "claim_entry list"
  report_drafts :: "string list"
  is_complete :: bool
  error :: "py_exception option"

definition AgentState_init :: "string \<Rightarrow> AgentState" where
  "AgentState_init rid =
     \<lparr>run_id = rid, messages = [], current_phase = ''planning'', step_count = 0,
      token_usage = [(''prompt_tokens'', 0), (''completion_tokens'', 0), (''total_tokens'', 0)],
      tool_call_log = [], evidence = [], claims = [], report_drafts = [],
      is_complete = False, error = None\<rparr>"

definition add_message :: "AgentState \<Rightarrow> ChatMessage \<Rightarrow> AgentState" where
  "add_message s m = s\<lparr>messages := messages s @ [m]\<rparr>"

text \<open>\<open>update_usage\<close>: a key of \<open>usage\<close> that \<open>token_usage\<close> has is incremented.\<close>

definition add_usage :: "(string \<times> int) list \<Rightarrow> string \<times> int \<Rightarrow> (string \<times> int) list" where
  "add_usage tu kv =
     (if fst kv \<in> set (map fst tu)
      then map (\<lambda>p. if fst p = fst kv then (fst p, snd p + snd kv) else p) tu
      else tu)"

definition update_usage :: "AgentState \<Rightarrow> (string \<times> int) list \<Rightarrow> AgentState" where
  "update_usage s u = s\<lparr>token_usage := foldl add_usage (token_usage s) u\<rparr>"

text \<open>\<open>ReActAgent\<close> after construction.\<close>

record ReActAgent =
  toolset :: ToolSet
  max_steps :: int
  system_prompt :: string
  is_baseline :: bool

type_synonym 'w step_result = "py_exception option \<times> AgentState \<times> 'w"

subsection \<open>Executing one tool call\<close>

text \<open>The call \<open>self.toolset.execute(tool_name, **args)\<close>: \<open>**\<close> needs a mapping, and a
  key that names a parameter of \<open>execute\<close> clashes with it.\<close>

definition call_execute ::
  "'w runtime \<Rightarrow> ToolSet \<Rightarrow> json \<Rightarrow> json \<Rightarrow> 'w \<Rightarrow> (py_exception + ToolResult) \<times> 'w" where
  "call_execute rt ts tool_name a w =
     (case a of
        JObj kwargs \<Rightarrow>
          (if map_of kwargs ''self'' \<noteq> None \<or> map_of kwargs ''tool_name'' \<noteq> None
           then (Inl TypeError, w)
           else ToolSet_execute rt ts tool_name kwargs w)
      | _ \<Rightarrow> (Inl TypeError, w))"

text \<open>\<open>ReActAgent._execute_tool_call\<close>. Only JSONDecodeError is caught: every other
  exception of \<open>json.loads\<close> leaves the function, and \<open>json.loads\<close> raises TypeError
  on a value that is not a string.\<close>

definition execute_tool_call ::
  "'w runtime \<Rightarrow> ReActAgent \<Rightarrow> pydict \<Rightarrow> 'w \<Rightarrow> (py_exception + ToolResult) \<times> 'w" where
  "execute_tool_call rt agent tool_call w =
     (case py_getitem (JObj tool_call) ''function'' of
        Inl e \<Rightarrow> (Inl e, w)
      | Inr func \<Rightarrow>
     (case py_getitem func ''name'' of
        Inl e \<Rightarrow> (Inl e, w)
      | Inr tool_name \<Rightarrow>
     (case py_getitem func ''arguments'' of
        Inl e \<Rightarrow> (Inl e, w)
      | Inr (JStr txt) \<Rightarrow>
          (case json_loads rt txt of
             Inl JSONDecodeError \<Rightarrow>
               (Inr (failed_result (''Invalid JSON in tool arguments: '' @ txt)), w)
           | Inl e \<Rightarrow> (Inl e, w)
           | Inr a \<Rightarrow> call_execute rt (toolset agent) tool_name a w)
      | Inr other \<Rightarrow> (Inl TypeError, w))))"


subsection \<open>Evidence and claim extraction\<close>

text \<open>The evidence entry of one browsed page (batch_web_surfer) or of the output of
  web_browse: the snippet is \<open>content.get("content", "")[:500]\<close>.\<close>

definition page_evidence ::
  "'w runtime \<Rightarrow> json \<Rightarrow> 'w \<Rightarrow> (py_exception + evidence_entry) \<times> 'w" where
  "page_evidence rt c w =
     (case py_get c ''url'' (JStr []) of
        Inl e \<Rightarrow> (Inl e, w)
      | Inr u \<Rightarrow>
     (case py_get c ''title'' (JStr []) of
        Inl e \<Rightarrow> (Inl e, w)
      | Inr ti \<Rightarrow>
     (case py_get c ''content'' (JStr []) of
        Inl e \<Rightarrow> (Inl e, w)
      | Inr body \<Rightarrow>
     (case py_slice_to body 500 of
        Inl e \<Rightarrow> (Inl e, w)
      | Inr sn \<Rightarrow>
          (let (now, w1) = utcnow rt w
           in (Inr \<lparr>source_url = u, source_title = ti, snippet = sn, retrieved_at = now\<rparr>,
               w1))))))"

text \<open>\<open>for content in item.get("browsed_content", [])\<close>.\<close>

fun extract_browsed :: "'w runtime \<Rightarrow> json list \<Rightarrow> AgentState \<Rightarrow> 'w \<Rightarrow> 'w step_result" where
  "extract_browsed rt [] s w = (None, s, w)"
| "extract_browsed rt (c # cs) s w =
     (case page_evidence rt c w of
        (Inl e, w1) \<Rightarrow> (Some e, s, w1)
      | (Inr ev, w1) \<Rightarrow> extract_browsed rt cs (s\<lparr>evidence := evidence s @ [ev]\<rparr>) w1)"

text \<open>\<open>for item in output\<close> of web_search and batch_web_surfer.\<close>

fun extract_items :: "'w runtime \<Rightarrow> json list \<Rightarrow> AgentState \<Rightarrow> 'w \<Rightarrow> 'w step_result" where
  "extract_items rt [] s w = (None, s, w)"
| "extract_items rt (item # rest) s w =
     (case item of
        JObj d \<Rightarrow>
          (if map_of d ''browsed_content'' \<noteq> None then
             (case py_iter (dict_get d ''browsed_content'' (JList [])) of
                Inl e \<Rightarrow> (Some e, s, w)
              | Inr cs \<Rightarrow>
                  (case extract_browsed rt cs s w of
                     (Some e, s1, w1) \<Rightarrow> (Some e, s1, w1)
                   | (None, s1, w1) \<Rightarrow> extract_items rt rest s1 w1))
           else if map_of d ''url'' \<noteq> None then
             (let (now, w1) = utcnow rt w
              in extract_items rt rest
                   (s\<lparr>evidence := evidence s @
                        [\<lparr>source_url = dict_get d ''url'' (JStr []),
                          source_title = dict_get d ''title'' (JStr []),
                          snippet = dict_get d ''snippet'' (JStr []),
                          retrieved_at = now\<rparr>]\<rparr>) w1)
           else extract_items rt rest s w)
      | _ \<Rightarrow> extract_items rt rest s w)"

text \<open>\<open>ReActAgent._extract_evidence\<close>. The tool name is
  \<open>tool_call["function"]["name"]\<close>.\<close>

definition extract_evidence ::
  "'w runtime \<Rightarrow> pydict \<Rightarrow> ToolResult \<Rightarrow> AgentState \<Rightarrow> 'w \<Rightarrow> 'w step_result" where
  "extract_evidence rt tool_call result s w =
     (case py_getitem (JObj tool_call) ''function'' of
        Inl e \<Rightarrow> (Some e, s, w)
      | Inr func \<Rightarrow>
     (case py_getitem func ''name'' of
        Inl e \<Rightarrow> (Some e, s, w)
      | Inr tool_name \<Rightarrow>
          (if tool_name = JStr ''web_search'' \<or> tool_name = JStr ''batch_web_surfer'' then
             (case tool_output result of
                JList items \<Rightarrow> extract_items rt items s w
              | _ \<Rightarrow> (None, s, w))
           else if tool_name = JStr ''web_browse'' then
             (case tool_output result of
                JObj d \<Rightarrow>
                  (case page_evidence rt (JObj d) w of
                     (Inl e, w1) \<Rightarrow> (Some e, s, w1)
                   | (Inr ev, w1) \<Rightarrow> (None, s\<lparr>evidence := evidence s @ [ev]\<rparr>, w1))
              | _ \<Rightarrow> (None, s, w))
           else if tool_name = JStr ''cross_validate'' then
             (case tool_output result of
                JObj d \<Rightarrow>
                  (None,
                   s\<lparr>claims := claims s @
                       [\<lparr>claim_text = dict_get d ''claim'' (JStr []),
                         status = dict_get d ''status'' (JStr ''uncertain''),
                         supporting_sources = dict_get d ''supporting_sources'' (JInt 0)\<rparr>]\<rparr>,
                   w)
              | _ \<Rightarrow> (None, s, w))
           else (None, s, w))))"

subsection \<open>The tool calls of one response\<close>

text \<open>The content of the tool-role message:
  \<open>json.dumps(tool_result.output) if tool_result.output else tool_result.error\<close>.\<close>

definition tool_message_content :: "'w runtime \<Rightarrow> ToolResult \<Rightarrow> string option" where
  "tool_message_content rt r =
     (if truthy (tool_output r) then Some (json_dumps rt (tool_output r)) else tool_error r)"

text \<open>The body of \<open>for tool_call in response.message.tool_calls\<close>.\<close>

definition process_tool_call ::
  "'w runtime \<Rightarrow> ReActAgent \<Rightarrow> pydict \<Rightarrow> AgentState \<Rightarrow> 'w \<Rightarrow> 'w step_result" where
  "process_tool_call rt agent tool_call s w =
     (case execute_tool_call rt agent tool_call w of
        (Inl e, w1) \<Rightarrow> (Some e, s, w1)
      | (Inr tool_result, w1) \<Rightarrow>
     (case py_getitem (JObj tool_call) ''id'' of
        Inl e \<Rightarrow> (Some e, s, w1)
      | Inr call_id_value \<Rightarrow>
          (let s1 = add_message s
                      \<lparr>role = ''tool'',
                       content = tool_message_content rt tool_result,
                       tool_calls = None,
                       tool_call_id = Some call_id_value,
                       name = None\<rparr>
           in
     (case py_getitem (JObj tool_call) ''function'' of
        Inl e \<Rightarrow> (Some e, s1, w1)
      | Inr func \<Rightarrow>
     (case py_getitem func ''name'' of
        Inl e \<Rightarrow> (Some e, s1, w1)
      | Inr tool_name \<Rightarrow>
     (case py_getitem func ''arguments'' of
        Inl e \<Rightarrow> (Some e, s1, w1)
      | Inr arguments \<Rightarrow>
          (let (now, w2) = utcnow rt w1;
               s2 = s1\<lparr>tool_call_log := tool_call_log s1 @
                         [\<lparr>tool = tool_name, args = arguments,
                           call_success = success tool_result, timestamp = now\<rparr>]\<rparr>
           in if success tool_result
              then extract_evidence rt tool_call tool_result s2 w2
              else (None, s2, w2))))))))"

fun process_tool_calls ::
  "'w runtime \<Rightarrow> ReActAgent \<Rightarrow> pydict list \<Rightarrow> AgentState \<Rightarrow> 'w \<Rightarrow> 'w step_result" where
  "process_tool_calls rt agent [] s w = (None, s, w)"
| "process_tool_calls rt agent (tc # tcs) s w =
     (case process_tool_call rt agent tc s w of
        (Some e, s1, w1) \<Rightarrow> (Some e, s1, w1)
      | (None, s1, w1) \<Rightarrow> process_tool_calls rt agent tcs s1 w1)"


subsection \<open>Phase inference\<close>

text \<open>\<open>xs[-n:]\<close>: the last \<open>n\<close> elements.\<close>

definition py_last :: "nat \<Rightarrow> 'a list \<Rightarrow> 'a list" where
  "py_last n xs = drop (length xs - n) xs"

text \<open>\<open>ReActAgent._determine_phase\<close>.\<close>

definition determine_phase :: "'w runtime \<Rightarrow> ReActAgent \<Rightarrow> AgentState \<Rightarrow> string" where
  "determine_phase rt agent s =
     (let recent_tools = map tool (py_last 5 (tool_call_log s)) in
      if step_count s \<le> 2 then ''planning''
      else if JStr ''reflect'' \<in> set recent_tools \<or> JStr ''cross_validate'' \<in> set recent_tools
        then ''reflection''
      else if (JStr ''file_write'' \<in> set recent_tools \<or> JStr ''file_edit'' \<in> set recent_tools)
              \<and> list_ex (\<lambda>tc. py_in ''report'' (py_lower (py_str rt (args tc))))
                    (py_last 3 (tool_call_log s))
        then ''report_generation''
      else if list_ex (\<lambda>t. t \<in> set recent_tools)
                [JStr ''web_search'', JStr ''web_browse'', JStr ''batch_web_surfer'']
        then ''information_seeking''
      else if late_run rt (step_count s) (max_steps agent) then ''report_generation''
      else ''information_seeking'')"

subsection \<open>Completion detection\<close>

text \<open>The report between the markers:
  \<open>content[content.index("<report>") + len("<report>") : content.index("</report>")].strip()\<close>.
  It is used only when both markers occur.\<close>

definition extract_report :: "string \<Rightarrow> string" where
  "extract_report c =
     py_strip (py_slice c (the (py_find ''<report>'' c) + length ''<report>'')
                          (the (py_find ''</report>'' c)))"

text \<open>The branch of a response without tool calls.\<close>

definition check_completion :: "ModelResponse \<Rightarrow> AgentState \<Rightarrow> AgentState" where
  "check_completion response s =
     (if str_truthy (content (message response)) then
        (let c = the (content (message response)) in
         if py_in ''<report>'' c \<and> py_in ''</report>'' c then
           s\<lparr>is_complete := True, report_drafts := report_drafts s @ [extract_report c]\<rparr>
         else if finish_reason response = ''stop'' \<and> step_count s > 5 then
           (if length c > 1000
            then s\<lparr>is_complete := True, report_drafts := report_drafts s @ [c]\<rparr>
            else s)
         else s)
      else s)"

subsection \<open>The loop\<close>

text \<open>The step callback \<open>on_step\<close> of \<open>run\<close>: it observes the state and may raise; it
  does not assign to the state it is given.\<close>

type_synonym 'w callback = "(AgentState \<Rightarrow> 'w \<Rightarrow> py_exception option \<times> 'w) option"

text \<open>The body of the \<open>try\<close> block of one iteration. An exception leaves the state as
  it was when it was raised.\<close>

definition loop_body ::
  "'w runtime \<Rightarrow> ReActAgent \<Rightarrow> 'w callback \<Rightarrow> AgentState \<Rightarrow> 'w \<Rightarrow> 'w step_result" where
  "loop_body rt agent on_step s w =
     (let s1 = s\<lparr>step_count := step_count s + 1\<rparr>;
          s2 = s1\<lparr>current_phase := determine_phase rt agent s1\<rparr>
      in case chat_completion rt (messages s2) w of
           (Inl e, w1) \<Rightarrow> (Some e, s2, w1)
         | (Inr response, w1) \<Rightarrow>
             (let s3 = update_usage s2 (usage response);
                  s4 = add_message s3 (message response)
              in case (if has_tool_calls response
                       then process_tool_calls rt agent (the (tool_calls (message response))) s4 w1
                       else (None, check_completion response s4, w1)) of
                   (Some e, s5, w2) \<Rightarrow> (Some e, s5, w2)
                 | (None, s5, w2) \<Rightarrow>
                     (case on_step of
                        None \<Rightarrow> (None, s5, w2)
                      | Some cb \<Rightarrow> (let (r, w3) = cb s5 w2 in (r, s5, w3)))))"

lemma extract_browsed_frame:
  "extract_browsed rt cs s w = (x, s1, w1) \<Longrightarrow>
   step_count s1 = step_count s \<and> is_complete s1 = is_complete s \<and>
   report_drafts s1 = report_drafts s \<and> messages s1 = messages s \<and> error s1 = error s \<and>
   tool_call_log s1 = tool_call_log s \<and> claims s1 = claims s"
proof (induction cs arbitrary: s w)
  case Nil
  then show ?case by simp
next
  case (Cons c cs)
  show ?case
  proof (cases "page_evidence rt c w")
    case (Pair r w')
    then show ?thesis
    proof (cases r)
      case (Inl e)
      with Pair Cons.prems show ?thesis by simp
    next
      case (Inr ev)
      with Pair Cons.prems
      have "extract_browsed rt cs (s\<lparr>evidence := evidence s @ [ev]\<rparr>) w' = (x, s1, w1)"
        by simp
      from Cons.IH[OF this] show ?thesis by simp
    qed
  qed
qed

lemma extract_items_frame:
  "extract_items rt items s w = (x, s1, w1) \<Longrightarrow>
   step_count s1 = step_count s \<and> is_complete s1 = is_complete s \<and>
   report_drafts s1 = report_drafts s \<and> messages s1 = messages s \<and> error s1 = error s \<and>
   tool_call_log s1 = tool_call_log s \<and> claims s1 = claims s"
proof (induction items arbitrary: s w)
  case Nil
  then show ?case by simp
next
  case (Cons item rest)
  show ?case
  proof (cases item)
    case (JObj d)
    show ?thesis
    proof (cases "map_of d ''browsed_content'' \<noteq> None")
      case True
      show ?thesis
      proof (cases "py_iter (dict_get d ''browsed_content'' (JList []))")
        case (Inl e)
        with JObj True Cons.prems show ?thesis by simp
      next
        case (Inr cs)
        obtain y s' w' where eb: "extract_browsed rt cs s w = (y, s', w')"
          by (cases "extract_browsed rt cs s w") auto
        note fr = extract_browsed_frame[OF eb]
        show ?thesis
        proof (cases y)
          case None
          with JObj True Inr eb Cons.prems
          have "extract_items rt rest s' w' = (x, s1, w1)" by simp
          from Cons.IH[OF this] fr show ?thesis by simp
        next
          case (Some e)
          with JObj True Inr eb Cons.prems fr show ?thesis by simp
        qed
      qed
    next
      case False
      note nb = False
      show ?thesis
      proof (cases "map_of d ''url'' \<noteq> None")
        case True
        obtain now w' where u: "utcnow rt w = (now, w')" by (cases "utcnow rt w") auto
        from JObj nb True u Cons.prems
        have "extract_items rt rest
                (s\<lparr>evidence := evidence s @
                     [\<lparr>source_url = dict_get d ''url'' (JStr []),
                       source_title = dict_get d ''title'' (JStr []),
                       snippet = dict_get d ''snippet'' (JStr []),
                       retrieved_at = now\<rparr>]\<rparr>) w' = (x, s1, w1)"
          by simp
        from Cons.IH[OF this] show ?thesis by simp
      next
        case False
        with JObj nb Cons.prems have "extract_items rt rest s w = (x, s1, w1)" by simp
        from Cons.IH[OF this] show ?thesis .
      qed
    qed
  qed (use Cons.prems Cons.IH in auto)
qed

lemma extract_evidence_frame:
  "extract_evidence rt tc r s w = (x, s1, w1) \<Longrightarrow>
   step_count s1 = step_count s \<and> is_complete s1 = is_complete s \<and>
   report_drafts s1 = report_drafts s \<and> messages s1 = messages s \<and> error s1 = error s \<and>
   tool_call_log s1 = tool_call_log s"
  unfolding extract_evidence_def
  by (auto split: sum.splits json.splits if_splits prod.splits dest: extract_items_frame)

lemma process_tool_call_frame:
  "process_tool_call rt agent tc s w = (x, s1, w1) \<Longrightarrow>
   step_count s1 = step_count s \<and> is_complete s1 = is_complete s \<and>
   report_drafts s1 = report_drafts s \<and> error s1 = error s"
  unfolding process_tool_call_def add_message_def Let_def
  by (auto split: sum.splits prod.splits if_splits dest!: extract_evidence_frame)

lemma process_tool_calls_frame:
  "process_tool_calls rt agent tcs s w = (x, s1, w1) \<Longrightarrow>
   step_count s1 = step_count s \<and> is_complete s1 = is_complete s \<and>
   report_drafts s1 = report_drafts s \<and> error s1 = error s"
proof (induction tcs arbitrary: s w)
  case Nil
  then show ?case by simp
next
  case (Cons tc tcs)
  obtain y s' w' where p: "process_tool_call rt agent tc s w = (y, s', w')"
    by (cases "process_tool_call rt agent tc s w") auto
  note fr = process_tool_call_frame[OF p]
  show ?case
  proof (cases y)
    case None
    with p Cons.prems have "process_tool_calls rt agent tcs s' w' = (x, s1, w1)" by simp
    from Cons.IH[OF this] fr show ?thesis by simp
  next
    case (Some e)
    with p Cons.prems fr show ?thesis by simp
  qed
qed

lemma check_completion_step_count:
  "step_count (check_completion r s) = step_count s"
  by (simp add: check_completion_def Let_def)

lemma loop_body_step_count:
  "loop_body rt agent cb s w = (x, s1, w1) \<Longrightarrow> step_count s1 = step_count s + 1"
  unfolding loop_body_def Let_def update_usage_def add_message_def
  by (auto split: sum.splits prod.splits if_splits option.splits
           simp: check_completion_step_count dest!: process_tool_calls_frame)

text \<open>\<open>while state.step_count < self.max_steps and not state.is_complete\<close>, with the
  handler of the \<open>try\<close> block: an exception is recorded in \<open>error\<close> and ends the loop.\<close>

function run_loop ::
  "'w runtime \<Rightarrow> ReActAgent \<Rightarrow> 'w callback \<Rightarrow> AgentState \<Rightarrow> 'w \<Rightarrow> AgentState \<times> 'w" where
  "run_loop rt agent on_step s w =
     (if step_count s < max_steps agent \<and> \<not> is_complete s then
        (case loop_body rt agent on_step s w of
           (Some e, s1, w1) \<Rightarrow> (s1\<lparr>error := Some e\<rparr>, w1)
         | (None, s1, w1) \<Rightarrow> run_loop rt agent on_step s1 w1)
      else (s, w))"
  by pat_completeness auto
termination run_loop
  by (relation "measure (\<lambda>(rt, agent, on_step, s, w). nat (max_steps agent - step_count s))")
     (auto dest!: loop_body_step_count loop_body_step_count[OF sym])

declare run_loop.simps [simp del]

subsection \<open>The run\<close>

text \<open>\<open>run\<close> first appends the system prompt and the user query.\<close>

definition seed_messages :: "ReActAgent \<Rightarrow> string \<Rightarrow> AgentState \<Rightarrow> AgentState" where
  "seed_messages agent query s =
     add_message
       (add_message s \<lparr>role = ''system'', content = Some (system_prompt agent),
                       tool_calls = None, tool_call_id = None, name = None\<rparr>)
       \<lparr>role = ''user'', content = Some query,
        tool_calls = None, tool_call_id = None, name = None\<rparr>"

text \<open>The state and the outside world when the \<open>while\<close> loop of \<open>run\<close> has ended.\<close>

definition loop_end ::
  "'w runtime \<Rightarrow> ReActAgent \<Rightarrow> string \<Rightarrow> AgentState \<Rightarrow> 'w callback \<Rightarrow> 'w \<Rightarrow> AgentState \<times> 'w" where
  "loop_end rt agent query s on_step w = run_loop rt agent on_step (seed_messages agent query s) w"

text \<open>The fallback after the loop: without a draft, the history is scanned backwards
  for an assistant message with text.\<close>

definition ensure_final_report :: "AgentState \<Rightarrow> AgentState" where
  "ensure_final_report s =
     (if report_drafts s = [] \<and> messages s \<noteq> [] then
        (case List.find (\<lambda>m. role m = ''assistant'' \<and> str_truthy (content m)) (rev (messages s)) of
           None \<Rightarrow> s
         | Some m \<Rightarrow> s\<lparr>report_drafts := report_drafts s @ [the (content m)]\<rparr>)
      else s)"

text \<open>\<open>ReActAgent.run(query, state, on_step)\<close>.\<close>

definition run ::
  "'w runtime \<Rightarrow> ReActAgent \<Rightarrow> string \<Rightarrow> AgentState \<Rightarrow> 'w callback \<Rightarrow> 'w \<Rightarrow> AgentState \<times> 'w" where
  "run rt agent query s on_step w =
     (let (s1, w1) = loop_end rt agent query s on_step w in (ensure_final_report s1, w1))"

section \<open>The step callback of the runner (agent/runner.py)\<close>

text \<open>
  \<open>AgentRunner.execute\<close> creates the state with \<open>AgentState(run_id)\<close> and calls
  \<open>run\<close> with its method \<open>_on_step\<close> as the step callback: the only callback this
  repository passes. The runner keeps the number of log entries it has recorded
  (\<open>tool_event_count\<close>, zero at first) and the phase of the run
  (\<open>run.current_phase.value\<close>, \<open>planning\<close> at first); the database, the event emitter,
  the backend, the tools and the clock are outside.
\<close>

record 'x runner_world =
  tool_event_count :: nat
  run_current_phase :: string
  outside :: 'x

text \<open>
  What the callback calls, each returning the exception it raised, if any:
  \<^item> \<open>phase_changed\<close> is \<open>db.update_run\<close> and \<open>emitter.phase_changed\<close> after a change
    of phase;
  \<^item> \<open>tool_event_recorded entry decoded\<close> is what \<open>_record_tool_event\<close> does once the
    arguments are decoded: the rest of the construction of the \<open>ToolEvent\<close>,
    \<open>db.create_tool_event\<close> and \<open>emitter.tool_call_completed\<close>;
  \<^item> \<open>progress_reported\<close> is the to-do update and \<open>_update_metrics\<close>.
\<close>

record 'x runner_io =
  phase_changed :: "AgentState \<Rightarrow> 'x \<Rightarrow> py_exception option \<times> 'x"
  tool_event_recorded :: "tool_call_record \<Rightarrow> json \<Rightarrow> 'x \<Rightarrow> py_exception option \<times> 'x"
  progress_reported :: "AgentState \<Rightarrow> 'x \<Rightarrow> py_exception option \<times> 'x"

text \<open>The values of the enumeration \<open>AgentPhase\<close> (backend/models.py).\<close>

definition agent_phases :: "string list" where
  "agent_phases = [''planning'', ''information_seeking'', ''reflection'', ''cross_validation'',
                   ''report_generation'', ''completed'']"

text \<open>\<open>AgentRunner._record_tool_event\<close>. The tool name is looked up in a dictionary, so
  it must be hashable; the arguments of the event are
  \<open>json.loads(tool_call.get("args", "{}")) if isinstance(tool_call.get("args"), str) else {}\<close>,
  with no handler around the call.\<close>

definition record_tool_event ::
  "'w runtime \<Rightarrow> 'x runner_io \<Rightarrow> tool_call_record \<Rightarrow> 'x \<Rightarrow> py_exception option \<times> 'x" where
  "record_tool_event rt io tc x =
     (case tool tc of
        JList xs \<Rightarrow> (Some TypeError, x)
      | JObj d \<Rightarrow> (Some TypeError, x)
      | _ \<Rightarrow>
          (case args tc of
             JStr txt \<Rightarrow>
               (case json_loads rt txt of
                  Inl e \<Rightarrow> (Some e, x)
                | Inr decoded \<Rightarrow> tool_event_recorded io tc decoded x)
           | _ \<Rightarrow> tool_event_recorded io tc (JObj []) x))"

text \<open>\<open>for tool_call in state.tool_calls[self.tool_event_count:]\<close>: each entry is
  recorded, then counted.\<close>

fun record_new_events ::
  "'w runtime \<Rightarrow> 'x runner_io \<Rightarrow> tool_call_record list \<Rightarrow> 'x runner_world
     \<Rightarrow> py_exception option \<times> 'x runner_world" where
  "record_new_events rt io [] rw = (None, rw)"
| "record_new_events rt io (tc # rest) rw =
     (case record_tool_event rt io tc (outside rw) of
        (Some e, x) \<Rightarrow> (Some e, rw\<lparr>outside := x\<rparr>)
      | (None, x) \<Rightarrow>
          record_new_events rt io rest
            (rw\<lparr>tool_event_count := tool_event_count rw + 1, outside := x\<rparr>))"

text \<open>\<open>AgentRunner._on_step\<close>. \<open>AgentPhase(state.current_phase)\<close> raises ValueError on a
  text that is no phase.\<close>

definition runner_on_step ::
  "'w runtime \<Rightarrow> 'x runner_io \<Rightarrow> AgentState \<Rightarrow> 'x runner_world
     \<Rightarrow> py_exception option \<times> 'x runner_world" where
  "runner_on_step rt io s rw =
     (case (if current_phase s \<noteq> run_current_phase rw then
              (if current_phase s \<in> set agent_phases then
                 (let (r, x) = phase_changed io s (outside rw)
                  in (r, rw\<lparr>run_current_phase := current_phase s, outside := x\<rparr>))
               else (Some ValueError, rw))
            else (None, rw)) of
        (Some e, rw1) \<Rightarrow> (Some e, rw1)
      | (None, rw1) \<Rightarrow>
          (case record_new_events rt io (drop (tool_event_count rw1) (tool_call_log s)) rw1 of
             (Some e, rw2) \<Rightarrow> (Some e, rw2)
           | (None, rw2) \<Rightarrow>
               (let (r, x) = progress_reported io s (outside rw2)
                in (r, rw2\<lparr>outside := x\<rparr>))))"

text \<open>The runtime of a run that the runner drives: the backend, the tools and the clock
  act on the outside part of the runner's world.\<close>

definition with_runner :: "'x runtime \<Rightarrow> 'x runner_world runtime" where
  "with_runner rt =
     \<lparr>json_loads = json_loads rt,
      json_dumps = json_dumps rt,
      builtin_str = builtin_str rt,
      utcnow = (\<lambda>rw. let (now, x) = utcnow rt (outside rw) in (now, rw\<lparr>outside := x\<rparr>)),
      tool_execute = (\<lambda>t kwargs rw.
         let (r, x) = tool_execute rt t kwargs (outside rw) in (r, rw\<lparr>outside := x\<rparr>)),
      chat_completion = (\<lambda>msgs rw.
         let (r, x) = chat_completion rt msgs (outside rw) in (r, rw\<lparr>outside := x\<rparr>)),
      late_run = late_run rt\<rparr>"

text \<open>The runner's world when \<open>execute\<close> calls \<open>run\<close>.\<close>

definition runner_start :: "'x \<Rightarrow> 'x runner_world" where
  "runner_start x = \<lparr>tool_event_count = 0, run_current_phase = ''planning'', outside = x\<rparr>"

section \<open>Notions of the specification\<close>

text \<open>The text of the most recent assistant message with non-empty content, if there
  is one: a later message wins over an earlier one.\<close>

fun most_recent_assistant_text :: "ChatMessage list \<Rightarrow> string option" where
  "most_recent_assistant_text [] = None"
| "most_recent_assistant_text (m # ms) =
     (case most_recent_assistant_text ms of
        Some c \<Rightarrow> Some c
      | None \<Rightarrow> (if role m = ''assistant'' \<and> content m \<noteq> None \<and> content m \<noteq> Some []
                 then content m else None))"


text \<open>The fragments of a stream index, the argument texts and the non-empty names they
  supply.\<close>

definition fragments_of :: "int \<Rightarrow> tool_call_delta list \<Rightarrow> tool_call_delta list" where
  "fragments_of i tcs = filter (\<lambda>tc. index tc = i) tcs"

definition argument_text :: "tool_call_delta \<Rightarrow> string" where
  "argument_text tc =
     (case delta_function tc of
        None \<Rightarrow> []
      | Some fn \<Rightarrow> (case fn_arguments fn of None \<Rightarrow> [] | Some a \<Rightarrow> a))"

definition supplied_name :: "tool_call_delta \<Rightarrow> string option" where
  "supplied_name tc =
     (case delta_function tc of
        None \<Rightarrow> None
      | Some fn \<Rightarrow> (case fn_name fn of None \<Rightarrow> None | Some n \<Rightarrow> if n = [] then None else Some n))"

definition supplied_names :: "tool_call_delta list \<Rightarrow> string list" where
  "supplied_names tcs = concat (map (\<lambda>tc. case supplied_name tc of None \<Rightarrow> [] | Some n \<Rightarrow> [n]) tcs)"


text \<open>The non-empty ids the fragments supply, the name the fragment that creates an
  entry gives it, and the call that a non-empty list of fragments of one stream index
  builds: the last non-empty id and name supplied win, the argument texts are
  concatenated in arrival order.\<close>

definition supplied_ids :: "tool_call_delta list \<Rightarrow> string list" where
  "supplied_ids tcs = map (\<lambda>tc. the (delta_id tc)) (filter (\<lambda>tc. str_truthy (delta_id tc)) tcs)"

definition first_name :: "tool_call_delta \<Rightarrow> string option" where
  "first_name tc = (case delta_function tc of None \<Rightarrow> Some [] | Some fn \<Rightarrow> fn_name fn)"

definition reassembled :: "tool_call_delta list \<Rightarrow> partial_call" where
  "reassembled tcs =
     \<lparr>call_id = (if supplied_ids tcs = [] then [] else last (supplied_ids tcs)),
      call_name = (if supplied_names tcs = [] then first_name (hd tcs)
                   else Some (last (supplied_names tcs))),
      call_arguments = concat (map argument_text tcs)\<rparr>"

text \<open>What one fragment does to the entry of its index.\<close>

definition apply_fragment :: "tool_call_delta \<Rightarrow> partial_call \<Rightarrow> partial_call" where
  "apply_fragment tc c =
     \<lparr>call_id = (if str_truthy (delta_id tc) then the (delta_id tc) else call_id c),
      call_name = (case supplied_name tc of None \<Rightarrow> call_name c | Some n \<Rightarrow> Some n),
      call_arguments = call_arguments c @ argument_text tc\<rparr>"

text \<open>The state of a step when the response of the backend has been added to the
  history: the counter is incremented, the phase recomputed, the usage accumulated.\<close>

definition response_recorded ::
  "'w runtime \<Rightarrow> ReActAgent \<Rightarrow> AgentState \<Rightarrow> ModelResponse \<Rightarrow> AgentState" where
  "response_recorded rt agent s r =
     (let s1 = s\<lparr>step_count := step_count s + 1\<rparr>;
          s2 = s1\<lparr>current_phase := determine_phase rt agent s1\<rparr>
      in add_message (update_usage s2 (usage r)) (message r))"

text \<open>A step callback that never raises.\<close>

definition quiet :: "'w callback \<Rightarrow> bool" where
  "quiet cb = (case cb of None \<Rightarrow> True | Some f \<Rightarrow> \<forall>s w. fst (f s w) = None)"

text \<open>A tool call without a \<open>function\<close> entry, or whose function part has no
  \<open>arguments\<close> entry, or whose \<open>arguments\<close> value is not a string.\<close>

definition malformed_call :: "pydict \<Rightarrow> bool" where
  "malformed_call tc =
     (case map_of tc ''function'' of
        None \<Rightarrow> True
      | Some (JObj f) \<Rightarrow>
          (case map_of f ''arguments'' of
             None \<Rightarrow> True
           | Some (JStr a) \<Rightarrow> False
           | Some other \<Rightarrow> True)
      | Some other \<Rightarrow> True)"

section \<open>A scripted runtime for examples\<close>

text \<open>The examples run the agent against a backend that replays a list of responses:
  the outside state is the number of completions requested so far. The decoder
  accepts two JSON texts and rejects every other text with JSONDecodeError.\<close>

definition example_loads :: "string \<Rightarrow> py_exception + json" where
  "example_loads s =
     (if s = ''{}'' then Inr (JObj []) else if s = ''null'' then Inr JNull
      else Inl JSONDecodeError)"

definition example_runtime :: "(py_exception + ModelResponse) list \<Rightarrow> nat runtime" where
  "example_runtime script =
     \<lparr>json_loads = example_loads,
      json_dumps = (\<lambda>v. ''<json>''),
      builtin_str = (\<lambda>v. ''<value>''),
      utcnow = (\<lambda>w. (''2025-01-01T00:00:00'', w)),
      tool_execute = (\<lambda>t kwargs w. (Inr \<lparr>success = True, tool_output = JList [],
                                            tool_error = None, metadata = []\<rparr>, w)),
      chat_completion = (\<lambda>msgs w. (if w < length script then script ! w
                                      else Inl (Raised ''connection closed''), Suc w)),
      late_run = (\<lambda>step limit. 10 * step > 7 * limit)\<rparr>"

text \<open>An agent with the default tools and a budget of three steps, its state when the
  loop starts, and responses of the backend.\<close>

definition example_agent :: ReActAgent where
  "example_agent =
     \<lparr>toolset = ToolSet_init ''r1'' ''/tmp/r1'' None, max_steps = 3,
      system_prompt = ''You are a research agent.'', is_baseline = False\<rparr>"

definition example_start :: AgentState where
  "example_start = seed_messages example_agent ''What is new?'' (AgentState_init ''r1'')"

definition tool_call_response :: "pydict list \<Rightarrow> ModelResponse" where
  "tool_call_response tcs =
     \<lparr>message = \<lparr>role = ''assistant'', content = None, tool_calls = Some tcs,
                  tool_call_id = None, name = None\<rparr>,
      finish_reason = ''tool_calls'', usage = []\<rparr>"

definition text_response :: "string \<Rightarrow> ModelResponse" where
  "text_response c =
     \<lparr>message = \<lparr>role = ''assistant'', content = Some c, tool_calls = None,
                  tool_call_id = None, name = None\<rparr>,
      finish_reason = ''stop'', usage = []\<rparr>"

definition bad_json_call :: pydict where
  "bad_json_call =
     [(''id'', JStr ''call_1''), (''type'', JStr ''function''),
      (''function'', JObj [(''name'', JStr ''web_search''), (''arguments'', JStr ''not-json'')])]"

definition null_arguments_call :: pydict where
  "null_arguments_call =
     [(''id'', JStr ''call_1''), (''type'', JStr ''function''),
      (''function'', JObj [(''name'', JStr ''web_search''), (''arguments'', JNull)])]"

definition cross_validate_call :: pydict where
  "cross_validate_call =
     [(''id'', JStr ''call_1''), (''type'', JStr ''function''),
      (''function'', JObj [(''name'', JStr ''cross_validate''), (''arguments'', JStr ''{}'')])]"

text \<open>A stream of two chunks, each with one fragment for stream index 0; the second
  fragment supplies another name than the first.\<close>

definition example_chunk :: "tool_call_delta \<Rightarrow> stream_chunk" where
  "example_chunk tc =
     \<lparr>choices = [\<lparr>delta = \<lparr>delta_content = None, delta_tool_calls = Some [tc]\<rparr>,
                  choice_finish_reason = None\<rparr>]\<rparr>"

definition first_fragment :: tool_call_delta where
  "first_fragment =
     \<lparr>index = 0, delta_id = Some ''call_1'',
      delta_function = Some \<lparr>fn_name = Some ''web_search'', fn_arguments = Some ''{''\<rparr>\<rparr>"

definition renaming_fragment :: tool_call_delta where
  "renaming_fragment =
     \<lparr>index = 0, delta_id = None,
      delta_function = Some \<lparr>fn_name = Some ''web_browse'', fn_arguments = Some ''}''\<rparr>\<rparr>"

text \<open>A database and an event emitter that never fail.\<close>

definition example_io :: "nat runner_io" where
  "example_io =
     \<lparr>phase_changed = (\<lambda>s x. (None, x)),
      tool_event_recorded = (\<lambda>entry decoded x. (None, x)),
      progress_reported = (\<lambda>s x. (None, x))\<rparr>"

text \<open>The run of the example agent as the runner starts it, against a backend whose
  first response asks for \<open>web_search\<close> with the argument text \<open>not-json\<close>.\<close>

definition not_json_run :: AgentState where
  "not_json_run =
     fst (run (with_runner (example_runtime [Inr (tool_call_response [bad_json_call])]))
            example_agent ''What is new?'' (AgentState_init ''r1'')
            (Some (runner_on_step
                     (with_runner (example_runtime [Inr (tool_call_response [bad_json_call])]))
                     example_io))
            (runner_start 0))"

section \<open>The tool registry\<close>

text \<open>
  Claim C10. For every ablations configuration the registry holds exactly the five core
  tools, plus \<open>todo\<close> if and only if \<open>enable_todo_state\<close> is absent or true, plus
  \<open>file_edit\<close> if and only if \<open>enable_patch_editing\<close> is absent or true, plus \<open>reflect\<close>
  and \<open>cross_validate\<close>, both or neither, if and only if \<open>enable_reflection\<close> is absent
  or true. No name is registered twice.
\<close>

theorem toolset_registry:
  "set (list_tools (ToolSet_init cid wd abl)) =
     {''web_search'', ''web_browse'', ''batch_web_surfer'', ''file_write'', ''file_read''}
     \<union> (if flag_on abl ''enable_todo_state'' then {''todo''} else {})
     \<union> (if flag_on abl ''enable_patch_editing'' then {''file_edit''} else {})
     \<union> (if flag_on abl ''enable_reflection'' then {''reflect'', ''cross_validate''} else {})
   \<and> distinct (list_tools (ToolSet_init cid wd abl))"
  by (cases abl)
     (auto simp: ToolSet_init_def list_tools_def flag_on_def dict_get_def Let_def
           split: option.splits)

lemma unknown_name_lookup:
  "n \<notin> set (list_tools ts) \<Longrightarrow> map_of (tools ts) n = None"
  by (simp add: list_tools_def map_of_eq_None_iff)

text \<open>
  Claim C7. For a tool name that is not registered, \<open>ToolSet.execute\<close> returns a failed
  ToolResult (success false, output null, error "Unknown tool: <name>") for every
  keyword arguments and raises nothing, it leaves the outside world as it was, and two
  such calls return the same result whatever their arguments and whenever they are made.
\<close>

theorem unknown_tool:
  assumes "n \<notin> set (list_tools ts)"
  shows "ToolSet_execute rt ts (JStr n) kwargs w
           = (Inr (failed_result (''Unknown tool: '' @ n)), w)
       \<and> fst (ToolSet_execute rt ts (JStr n) kwargs w)
           = fst (ToolSet_execute rt ts (JStr n) kwargs' w')"
  using unknown_name_lookup[OF assms] by (simp add: ToolSet_execute_def py_str_def)

theorem unknown_tool_witness:
  "''summon'' \<notin> set (list_tools (ToolSet_init ''r1'' ''/tmp/r1'' None))
   \<and> ToolSet_execute (example_runtime []) (ToolSet_init ''r1'' ''/tmp/r1'' None) (JStr ''summon'')
        [(''x'', JInt 1)] 0
       = (Inr (failed_result (''Unknown tool: '' @ ''summon'')), 0)
   \<and> fst (ToolSet_execute (example_runtime []) (ToolSet_init ''r1'' ''/tmp/r1'' None) (JStr ''summon'')
        [(''x'', JInt 1)] 0)
     = fst (ToolSet_execute (example_runtime []) (ToolSet_init ''r1'' ''/tmp/r1'' None) (JStr ''summon'')
        [] 7)"
proof -
  have h: "''summon'' \<notin> set (list_tools (ToolSet_init ''r1'' ''/tmp/r1'' None))"
    by (simp add: list_tools_def ToolSet_init_def dict_get_def)
  from unknown_tool[OF h, of "example_runtime []" "[(''x'', JInt 1)]" 0 "[]" 7] h
  show ?thesis by blast
qed

section \<open>Steps of the loop\<close>

lemma response_recorded_fields:
  "step_count (response_recorded rt agent s r) = step_count s + 1"
  "is_complete (response_recorded rt agent s r) = is_complete s"
  "error (response_recorded rt agent s r) = error s"
  "report_drafts (response_recorded rt agent s r) = report_drafts s"
  "messages (response_recorded rt agent s r) = messages s @ [message r]"
  by (simp_all add: response_recorded_def Let_def add_message_def update_usage_def)

lemma loop_body_with_tool_calls:
  assumes "chat_completion rt (messages s) w = (Inr r, w1)"
      and "tool_calls (message r) = Some (tc # tcs)"
  shows "loop_body rt agent cb s w =
     (case process_tool_calls rt agent (tc # tcs) (response_recorded rt agent s r) w1 of
        (Some e, s5, w2) \<Rightarrow> (Some e, s5, w2)
      | (None, s5, w2) \<Rightarrow>
          (case cb of
             None \<Rightarrow> (None, s5, w2)
           | Some f \<Rightarrow> (let (x, w3) = f s5 w2 in (x, s5, w3))))"
  using assms
  by (simp add: loop_body_def response_recorded_def Let_def has_tool_calls_def)

lemma run_loop_raise:
  assumes "step_count s < max_steps agent" and "\<not> is_complete s"
      and "loop_body rt agent cb s w = (Some e, s1, w1)"
  shows "run_loop rt agent cb s w = (s1\<lparr>error := Some e\<rparr>, w1)"
  using assms by (subst run_loop.simps) simp

lemma run_loop_continue:
  assumes "step_count s < max_steps agent" and "\<not> is_complete s"
      and "loop_body rt agent cb s w = (None, s1, w1)"
  shows "run_loop rt agent cb s w = run_loop rt agent cb s1 w1"
  using assms by (subst run_loop.simps) simp

lemma run_loop_stop:
  assumes "\<not> (step_count s < max_steps agent \<and> \<not> is_complete s)"
  shows "run_loop rt agent cb s w = (s, w)"
  using assms by (subst run_loop.simps) auto

lemma quiet_callback:
  assumes "quiet cb"
  shows "(case cb of None \<Rightarrow> (None, s5, w2)
          | Some f \<Rightarrow> (let (x, w3) = f s5 w2 in (x, s5, w3)))
         = (None, s5, case cb of None \<Rightarrow> w2 | Some f \<Rightarrow> snd (f s5 w2))"
  using assms by (auto simp: quiet_def case_prod_beta split: option.splits)

lemma process_tool_calls_append:
  "process_tool_calls rt agent pre s w = (None, s1, w1) \<Longrightarrow>
   process_tool_calls rt agent (pre @ post) s w = process_tool_calls rt agent post s1 w1"
proof (induction pre arbitrary: s w)
  case Nil
  then show ?case by simp
next
  case (Cons tc pre)
  obtain y s' w' where p: "process_tool_call rt agent tc s w = (y, s', w')"
    by (cases "process_tool_call rt agent tc s w") auto
  show ?case
  proof (cases y)
    case None
    with p Cons.prems have "process_tool_calls rt agent pre s' w' = (None, s1, w1)" by simp
    from Cons.IH[OF this] p None show ?thesis by simp
  next
    case (Some e)
    with p Cons.prems show ?thesis by simp
  qed
qed


lemma example_start_fields:
  "step_count example_start = 0" "\<not> is_complete example_start" "error example_start = None"
  "report_drafts example_start = []"
  "messages example_start =
     [\<lparr>role = ''system'', content = Some ''You are a research agent.'',
       tool_calls = None, tool_call_id = None, name = None\<rparr>,
      \<lparr>role = ''user'', content = Some ''What is new?'',
       tool_calls = None, tool_call_id = None, name = None\<rparr>]"
  by (simp_all add: example_start_def seed_messages_def add_message_def AgentState_init_def
                    example_agent_def)

section \<open>Tool results in the conversation\<close>

text \<open>
  Claim C3, at the inputs where the code departs from it. A tool that succeeds with an
  empty list, an empty object, an empty string, zero or false as its output gets a
  tool-role message whose content is the error field of the result (None for a
  successful result), not the JSON text of the output: the content is chosen by the
  truth value of the output, not by the success flag.
\<close>

theorem empty_output_message:
  "tool_message_content rt \<lparr>success = True, tool_output = JList [], tool_error = None, metadata = md\<rparr> = None
   \<and> tool_message_content rt \<lparr>success = True, tool_output = JObj [], tool_error = None, metadata = md\<rparr> = None
   \<and> tool_message_content rt \<lparr>success = True, tool_output = JStr [], tool_error = None, metadata = md\<rparr> = None
   \<and> tool_message_content rt \<lparr>success = True, tool_output = JInt 0, tool_error = None, metadata = md\<rparr> = None
   \<and> tool_message_content rt \<lparr>success = True, tool_output = JBool False, tool_error = None, metadata = md\<rparr> = None"
  by (simp add: tool_message_content_def)

lemma truthy_output_message:
  "truthy (tool_output r) \<Longrightarrow> tool_message_content rt r = Some (json_dumps rt (tool_output r))"
  by (simp add: tool_message_content_def)

lemma failed_result_message:
  "tool_message_content rt (failed_result msg) = Some msg"
  by (simp add: tool_message_content_def failed_result_def)

section \<open>Malformed tool-call arguments\<close>

lemma execute_invalid_json:
  assumes "map_of tc ''function'' = Some (JObj f)"
      and "map_of f ''name'' = Some nm"
      and "map_of f ''arguments'' = Some (JStr txt)"
      and "json_loads rt txt = Inl JSONDecodeError"
  shows "execute_tool_call rt agent tc w
           = (Inr (failed_result (''Invalid JSON in tool arguments: '' @ txt)), w)"
  using assms by (simp add: execute_tool_call_def)

lemma process_invalid_json:
  assumes "map_of tc ''function'' = Some (JObj f)"
      and "map_of f ''name'' = Some nm"
      and "map_of f ''arguments'' = Some (JStr txt)"
      and "map_of tc ''id'' = Some i"
      and "json_loads rt txt = Inl JSONDecodeError"
  shows "process_tool_call rt agent tc s w =
           (None,
            s\<lparr>messages := messages s @
                 [\<lparr>role = ''tool'',
                   content = Some (''Invalid JSON in tool arguments: '' @ txt),
                   tool_calls = None, tool_call_id = Some i, name = None\<rparr>],
              tool_call_log := tool_call_log s @
                 [\<lparr>tool = nm, args = JStr txt, call_success = False,
                   timestamp = fst (utcnow rt w)\<rparr>]\<rparr>,
            snd (utcnow rt w))"
  using assms execute_invalid_json[OF assms(1,2,3,5), of agent w]
  by (simp add: process_tool_call_def tool_message_content_def failed_result_def
                add_message_def case_prod_beta Let_def)

text \<open>
  What the agent does by itself with an argument text that \<open>json.loads\<close> rejects with
  JSONDecodeError: \<open>_execute_tool_call\<close> returns a failed ToolResult with the error
  "Invalid JSON in tool arguments: <text>" and raises nothing; the tool-role message
  appended for it has exactly that error text as content and the call's id; the
  remaining tool calls of the response are processed; and when it is the only tool call
  of a response, the step ends without an exception provided the step callback does not
  raise.
\<close>

lemma invalid_json_step:
  assumes "map_of tc ''function'' = Some (JObj f)"
      and "map_of f ''name'' = Some nm"
      and "map_of f ''arguments'' = Some (JStr txt)"
      and "map_of tc ''id'' = Some i"
      and "json_loads rt txt = Inl JSONDecodeError"
  shows "execute_tool_call rt agent tc w
           = (Inr (failed_result (''Invalid JSON in tool arguments: '' @ txt)), w)
       \<and> (\<exists>s1 w1. process_tool_call rt agent tc s w = (None, s1, w1)
            \<and> messages s1 = messages s @
                 [\<lparr>role = ''tool'',
                   content = Some (''Invalid JSON in tool arguments: '' @ txt),
                   tool_calls = None, tool_call_id = Some i, name = None\<rparr>]
            \<and> process_tool_calls rt agent (tc # rest) s w = process_tool_calls rt agent rest s1 w1)
       \<and> (step_count s < max_steps agent \<and> \<not> is_complete s \<and> quiet cb
            \<and> chat_completion rt (messages s) w = (Inr r, w')
            \<and> tool_calls (message r) = Some [tc]
          \<longrightarrow> (\<exists>s2 w2. loop_body rt agent cb s w = (None, s2, w2)
                \<and> run_loop rt agent cb s w = run_loop rt agent cb s2 w2
                \<and> step_count s2 = step_count s + 1
                \<and> error s2 = error s \<and> \<not> is_complete s2
                \<and> messages s2 = messages s @
                     [message r,
                      \<lparr>role = ''tool'',
                       content = Some (''Invalid JSON in tool arguments: '' @ txt),
                       tool_calls = None, tool_call_id = Some i, name = None\<rparr>]))"
proof (intro conjI impI)
  show "execute_tool_call rt agent tc w
           = (Inr (failed_result (''Invalid JSON in tool arguments: '' @ txt)), w)"
    by (rule execute_invalid_json[OF assms(1,2,3,5)])
next
  note p = process_invalid_json[OF assms, of agent s w]
  show "\<exists>s1 w1. process_tool_call rt agent tc s w = (None, s1, w1)
            \<and> messages s1 = messages s @
                 [\<lparr>role = ''tool'',
                   content = Some (''Invalid JSON in tool arguments: '' @ txt),
                   tool_calls = None, tool_call_id = Some i, name = None\<rparr>]
            \<and> process_tool_calls rt agent (tc # rest) s w = process_tool_calls rt agent rest s1 w1"
    by (simp add: p)
next
  assume h: "step_count s < max_steps agent \<and> \<not> is_complete s \<and> quiet cb
            \<and> chat_completion rt (messages s) w = (Inr r, w')
            \<and> tool_calls (message r) = Some [tc]"
  let ?s4 = "response_recorded rt agent s r"
  note p = process_invalid_json[OF assms, of agent ?s4 w']
  define s2 where "s2 = ?s4\<lparr>messages := messages ?s4 @
                 [\<lparr>role = ''tool'',
                   content = Some (''Invalid JSON in tool arguments: '' @ txt),
                   tool_calls = None, tool_call_id = Some i, name = None\<rparr>],
              tool_call_log := tool_call_log ?s4 @
                 [\<lparr>tool = nm, args = JStr txt, call_success = False,
                   timestamp = fst (utcnow rt w')\<rparr>]\<rparr>"
  define w2 where "w2 = (case cb of None \<Rightarrow> snd (utcnow rt w') | Some f \<Rightarrow> snd (f s2 (snd (utcnow rt w'))))"
  from h have q: "quiet cb" by simp
  have pc: "process_tool_calls rt agent [tc] ?s4 w' = (None, s2, snd (utcnow rt w'))"
    by (simp add: p s2_def)
  have "loop_body rt agent cb s w =
          (case cb of None \<Rightarrow> (None, s2, snd (utcnow rt w'))
           | Some f \<Rightarrow> (let (x, w3) = f s2 (snd (utcnow rt w')) in (x, s2, w3)))"
    unfolding loop_body_with_tool_calls[OF conjunct1[OF conjunct2[OF conjunct2[OF conjunct2[OF h]]]]
        conjunct2[OF conjunct2[OF conjunct2[OF conjunct2[OF h]]]], of agent cb] pc
    by simp
  then have lb: "loop_body rt agent cb s w = (None, s2, w2)"
    unfolding quiet_callback[OF q] w2_def .
  have rl: "run_loop rt agent cb s w = run_loop rt agent cb s2 w2"
    using h lb by (simp add: run_loop_continue)
  have fields: "step_count s2 = step_count s + 1" "error s2 = error s" "\<not> is_complete s2"
    "messages s2 = messages s @
                     [message r,
                      \<lparr>role = ''tool'',
                       content = Some (''Invalid JSON in tool arguments: '' @ txt),
                       tool_calls = None, tool_call_id = Some i, name = None\<rparr>]"
    using h by (simp_all add: s2_def response_recorded_fields)
  from lb rl fields
  show "\<exists>s2 w2. loop_body rt agent cb s w = (None, s2, w2)
                \<and> run_loop rt agent cb s w = run_loop rt agent cb s2 w2
                \<and> step_count s2 = step_count s + 1
                \<and> error s2 = error s \<and> \<not> is_complete s2
                \<and> messages s2 = messages s @
                     [message r,
                      \<lparr>role = ''tool'',
                       content = Some (''Invalid JSON in tool arguments: '' @ txt),
                       tool_calls = None, tool_call_id = Some i, name = None\<rparr>]"
    by blast
qed


lemma invalid_json_step_example:
  "map_of bad_json_call ''function''
     = Some (JObj [(''name'', JStr ''web_search''), (''arguments'', JStr ''not-json'')])
   \<and> map_of [(''name'', JStr ''web_search''), (''arguments'', JStr ''not-json'')] ''name''
     = Some (JStr ''web_search'')
   \<and> map_of [(''name'', JStr ''web_search''), (''arguments'', JStr ''not-json'')] ''arguments''
     = Some (JStr ''not-json'')
   \<and> map_of bad_json_call ''id'' = Some (JStr ''call_1'')
   \<and> json_loads (example_runtime [Inr (tool_call_response [bad_json_call])]) ''not-json''
       = Inl JSONDecodeError
   \<and> execute_tool_call (example_runtime [Inr (tool_call_response [bad_json_call])])
         example_agent bad_json_call 0
       = (Inr (failed_result (''Invalid JSON in tool arguments: '' @ ''not-json'')), 0)
   \<and> step_count example_start < max_steps example_agent
   \<and> \<not> is_complete example_start
   \<and> quiet None
   \<and> chat_completion (example_runtime [Inr (tool_call_response [bad_json_call])])
         (messages example_start) 0
       = (Inr (tool_call_response [bad_json_call]), 1)
   \<and> tool_calls (message (tool_call_response [bad_json_call])) = Some [bad_json_call]
   \<and> (\<exists>s2 w2.
         loop_body (example_runtime [Inr (tool_call_response [bad_json_call])])
           example_agent None example_start 0 = (None, s2, w2)
         \<and> run_loop (example_runtime [Inr (tool_call_response [bad_json_call])])
             example_agent None example_start 0
           = run_loop (example_runtime [Inr (tool_call_response [bad_json_call])])
               example_agent None s2 w2
         \<and> step_count s2 = 1 \<and> error s2 = None \<and> \<not> is_complete s2
         \<and> messages s2 = messages example_start @
              [message (tool_call_response [bad_json_call]),
               \<lparr>role = ''tool'',
                content = Some (''Invalid JSON in tool arguments: '' @ ''not-json''),
                tool_calls = None, tool_call_id = Some (JStr ''call_1''), name = None\<rparr>])"
proof -
  let ?rt = "example_runtime [Inr (tool_call_response [bad_json_call])]"
  have a: "map_of bad_json_call ''function''
     = Some (JObj [(''name'', JStr ''web_search''), (''arguments'', JStr ''not-json'')])"
    by (simp add: bad_json_call_def)
  have b: "map_of [(''name'', JStr ''web_search''), (''arguments'', JStr ''not-json'')] ''name''
     = Some (JStr ''web_search'')" by simp
  have c: "map_of [(''name'', JStr ''web_search''), (''arguments'', JStr ''not-json'')] ''arguments''
     = Some (JStr ''not-json'')" by simp
  have d: "map_of bad_json_call ''id'' = Some (JStr ''call_1'')"
    by (simp add: bad_json_call_def)
  have e: "json_loads ?rt ''not-json'' = Inl JSONDecodeError"
    by (simp add: example_runtime_def example_loads_def)
  have h: "step_count example_start < max_steps example_agent \<and> \<not> is_complete example_start
     \<and> quiet None
     \<and> chat_completion ?rt (messages example_start) 0 = (Inr (tool_call_response [bad_json_call]), 1)
     \<and> tool_calls (message (tool_call_response [bad_json_call])) = Some [bad_json_call]"
    by (simp add: example_start_fields example_agent_def quiet_def example_runtime_def
                  tool_call_response_def)
  note t = invalid_json_step[OF a b c d e, of example_agent 0 example_start "[]"
      None "tool_call_response [bad_json_call]" 1]
  from t have t1: "execute_tool_call ?rt example_agent bad_json_call 0
       = (Inr (failed_result (''Invalid JSON in tool arguments: '' @ ''not-json'')), 0)"
    by (rule conjunct1)
  from t h have t3: "\<exists>s2 w2.
         loop_body ?rt example_agent None example_start 0 = (None, s2, w2)
         \<and> run_loop ?rt example_agent None example_start 0 = run_loop ?rt example_agent None s2 w2
         \<and> step_count s2 = step_count example_start + 1
         \<and> error s2 = error example_start \<and> \<not> is_complete s2
         \<and> messages s2 = messages example_start @
              [message (tool_call_response [bad_json_call]),
               \<lparr>role = ''tool'',
                content = Some (''Invalid JSON in tool arguments: '' @ ''not-json''),
                tool_calls = None, tool_call_id = Some (JStr ''call_1''), name = None\<rparr>]"
    by blast
  have f: "step_count example_start + 1 = 1" "error example_start = None"
    by (simp_all add: example_start_fields)
  from t3 have t3': "\<exists>s2 w2.
         loop_body ?rt example_agent None example_start 0 = (None, s2, w2)
         \<and> run_loop ?rt example_agent None example_start 0 = run_loop ?rt example_agent None s2 w2
         \<and> step_count s2 = 1 \<and> error s2 = None \<and> \<not> is_complete s2
         \<and> messages s2 = messages example_start @
              [message (tool_call_response [bad_json_call]),
               \<lparr>role = ''tool'',
                content = Some (''Invalid JSON in tool arguments: '' @ ''not-json''),
                tool_calls = None, tool_call_id = Some (JStr ''call_1''), name = None\<rparr>]"
    unfolding f .
  from a b c d e t1 h t3' show ?thesis by blast
qed

text \<open>Any other exception of \<open>json.loads\<close> is not caught by \<open>_execute_tool_call\<close>.\<close>

lemma execute_other_decoding_failure:
  assumes "map_of tc ''function'' = Some (JObj f)"
      and "map_of f ''name'' = Some nm"
      and "map_of f ''arguments'' = Some (JStr txt)"
      and "json_loads rt txt = Inl e" and "e \<noteq> JSONDecodeError"
  shows "execute_tool_call rt agent tc w = (Inl e, w)"
  using assms by (simp add: execute_tool_call_def split: py_exception.splits)

subsection \<open>Under the callback of the runner\<close>

lemma with_runner_simps:
  "json_loads (with_runner rt) = json_loads rt"
  "utcnow (with_runner rt) rw = (fst (utcnow rt (outside rw)), rw\<lparr>outside := snd (utcnow rt (outside rw))\<rparr>)"
  "chat_completion (with_runner rt) msgs rw
     = (fst (chat_completion rt msgs (outside rw)),
        rw\<lparr>outside := snd (chat_completion rt msgs (outside rw))\<rparr>)"
  by (simp_all add: with_runner_def case_prod_beta)

lemma record_tool_event_bad_args:
  assumes "args tc = JStr txt" and "json_loads rt txt = Inl e"
  shows "fst (record_tool_event rt io tc x) \<noteq> None"
  using assms by (simp add: record_tool_event_def split: json.splits)

lemma record_new_events_raises:
  assumes "tc \<in> set entries" and "args tc = JStr txt" and "json_loads rt txt = Inl e"
  shows "fst (record_new_events rt io entries rw) \<noteq> None"
  using assms(1)
proof (induction entries arbitrary: rw)
  case Nil
  then show ?case by simp
next
  case (Cons a rest)
  obtain r x where rt: "record_tool_event rt io a (outside rw) = (r, x)"
    by (cases "record_tool_event rt io a (outside rw)") auto
  show ?case
  proof (cases r)
    case (Some e')
    with rt show ?thesis by simp
  next
    case None
    with rt record_tool_event_bad_args[OF assms(2,3), of io "outside rw"]
    have "a \<noteq> tc" by auto
    with Cons.prems have "tc \<in> set rest" by simp
    from Cons.IH[OF this] rt None show ?thesis by simp
  qed
qed

lemma runner_on_step_raises:
  assumes "tc \<in> set (drop (tool_event_count rw) (tool_call_log s))"
      and "args tc = JStr txt" and "json_loads rt txt = Inl e"
  shows "fst (runner_on_step rt io s rw) \<noteq> None"
proof -
  define stage1 where "stage1 =
     (if current_phase s \<noteq> run_current_phase rw then
        (if current_phase s \<in> set agent_phases then
           (let (r, x) = phase_changed io s (outside rw)
            in (r, rw\<lparr>run_current_phase := current_phase s, outside := x\<rparr>))
         else (Some ValueError, rw))
      else (None, rw))"
  have cnt: "tool_event_count (snd stage1) = tool_event_count rw"
    by (simp add: stage1_def case_prod_beta)
  obtain r1 rw1 where s1: "stage1 = (r1, rw1)" by (cases stage1) auto
  with cnt have c1: "tool_event_count rw1 = tool_event_count rw" by simp
  have os: "runner_on_step rt io s rw =
     (case stage1 of
        (Some e, rw1) \<Rightarrow> (Some e, rw1)
      | (None, rw1) \<Rightarrow>
          (case record_new_events rt io (drop (tool_event_count rw1) (tool_call_log s)) rw1 of
             (Some e, rw2) \<Rightarrow> (Some e, rw2)
           | (None, rw2) \<Rightarrow>
               (let (r, x) = progress_reported io s (outside rw2)
                in (r, rw2\<lparr>outside := x\<rparr>))))"
    unfolding runner_on_step_def stage1_def ..
  show ?thesis
  proof (cases r1)
    case (Some e1)
    with s1 show ?thesis unfolding os by simp
  next
    case None
    obtain r2 rw2 where s2:
      "record_new_events rt io (drop (tool_event_count rw) (tool_call_log s)) rw1 = (r2, rw2)"
      by (cases "record_new_events rt io (drop (tool_event_count rw) (tool_call_log s)) rw1") auto
    from record_new_events_raises[OF assms, of io rw1] s2 obtain e2 where "r2 = Some e2"
      by auto
    with s1 None s2 c1 show ?thesis unfolding os by simp
  qed
qed


lemma response_recorded_log:
  "tool_call_log (response_recorded rt agent s r) = tool_call_log s"
  "current_phase (response_recorded rt agent s r)
     = determine_phase rt agent (s\<lparr>step_count := step_count s + 1\<rparr>)"
  by (simp_all add: response_recorded_def Let_def add_message_def update_usage_def)

lemma runner_aborts_on_invalid_json:
  assumes "map_of tc ''function'' = Some (JObj f)"
      and "map_of f ''name'' = Some nm"
      and "map_of f ''arguments'' = Some (JStr txt)"
      and "map_of tc ''id'' = Some i"
      and "json_loads rt txt = Inl JSONDecodeError"
      and "step_count s < max_steps agent" and "\<not> is_complete s"
      and "chat_completion rt (messages s) (outside rw) = (Inr r, x)"
      and "tool_calls (message r) = Some [tc]"
      and "tool_event_count rw \<le> length (tool_call_log s)"
  shows "\<exists>e s2 rw2.
           run_loop (with_runner rt) agent (Some (runner_on_step (with_runner rt) io)) s rw
             = (s2, rw2)
         \<and> error s2 = Some e \<and> step_count s2 = step_count s + 1
         \<and> messages s2 = messages s @
              [message r,
               \<lparr>role = ''tool'', content = Some (''Invalid JSON in tool arguments: '' @ txt),
                tool_calls = None, tool_call_id = Some i, name = None\<rparr>]"
proof -
  let ?rt = "with_runner rt"
  let ?cb = "Some (runner_on_step ?rt io)"
  let ?w1 = "rw\<lparr>outside := x\<rparr>"
  let ?s4 = "response_recorded ?rt agent s r"
  let ?entry = "\<lparr>tool = nm, args = JStr txt, call_success = False,
                  timestamp = fst (utcnow ?rt ?w1)\<rparr>"
  let ?s5 = "?s4\<lparr>messages := messages ?s4 @
                 [\<lparr>role = ''tool'',
                   content = Some (''Invalid JSON in tool arguments: '' @ txt),
                   tool_calls = None, tool_call_id = Some i, name = None\<rparr>],
              tool_call_log := tool_call_log ?s4 @ [?entry]\<rparr>"
  let ?w2 = "snd (utcnow ?rt ?w1)"
  have bad: "json_loads ?rt txt = Inl JSONDecodeError"
    using assms(5) by (simp add: with_runner_simps)
  have cc: "chat_completion ?rt (messages s) rw = (Inr r, ?w1)"
    using assms(8) by (simp add: with_runner_simps)
  have pc: "process_tool_calls ?rt agent [tc] ?s4 ?w1 = (None, ?s5, ?w2)"
    by (simp add: process_invalid_json[OF assms(1-4) bad])
  have cnt: "tool_event_count ?w2 = tool_event_count rw"
    by (simp add: with_runner_simps)
  have "?entry \<in> set (drop (tool_event_count ?w2) (tool_call_log ?s5))"
    using assms(10) by (simp add: cnt response_recorded_log)
  from runner_on_step_raises[OF this _ bad, of io]
  obtain e where e: "fst (runner_on_step ?rt io ?s5 ?w2) = Some e" by auto
  have lb: "loop_body ?rt agent ?cb s rw = (Some e, ?s5, snd (runner_on_step ?rt io ?s5 ?w2))"
    unfolding loop_body_with_tool_calls[OF cc assms(9)] pc
    using e by (simp add: case_prod_beta)
  note rl = run_loop_raise[OF assms(6,7) lb]
  show ?thesis
    unfolding rl by (simp add: response_recorded_fields)
qed

text \<open>
  Claim C5, at an input where the code departs from it. The run is started as
  \<open>AgentRunner.execute\<close> starts it, with \<open>_on_step\<close> as the step callback, and the first
  response of the backend asks for a tool with the argument text \<open>not-json\<close>.
  \<open>_execute_tool_call\<close> returns the failed ToolResult and the tool-role message with
  exactly the error text is appended, as the claim says. The callback then decodes the
  logged argument text with \<open>json.loads\<close> and no handler: the JSONDecodeError is raised
  inside the \<open>try\<close> block of the loop, which records it as the error of the run and ends
  the loop. The run stops at step 1 with the error set; it does not go on to step 2.
\<close>

theorem runner_stops_on_invalid_json:
  "step_count not_json_run = 1
   \<and> error not_json_run = Some JSONDecodeError
   \<and> \<not> is_complete not_json_run
   \<and> report_drafts not_json_run = []
   \<and> messages not_json_run = messages example_start @
        [message (tool_call_response [bad_json_call]),
         \<lparr>role = ''tool'', content = Some ''Invalid JSON in tool arguments: not-json'',
          tool_calls = None, tool_call_id = Some (JStr ''call_1''), name = None\<rparr>]"
proof -
  let ?r = "tool_call_response [bad_json_call]"
  let ?rt = "with_runner (example_runtime [Inr ?r])"
  let ?cb = "Some (runner_on_step ?rt example_io)"
  let ?s4 = "response_recorded ?rt example_agent example_start ?r"
  define w1 where "w1 = (runner_start (0::nat))\<lparr>outside := Suc 0\<rparr>"
  define entry where "entry = \<lparr>tool = JStr ''web_search'', args = JStr ''not-json'',
                  call_success = False, timestamp = ''2025-01-01T00:00:00''\<rparr>"
  define s5 where "s5 = ?s4\<lparr>messages := messages ?s4 @
                 [\<lparr>role = ''tool'',
                   content = Some (''Invalid JSON in tool arguments: '' @ ''not-json''),
                   tool_calls = None, tool_call_id = Some (JStr ''call_1''), name = None\<rparr>],
              tool_call_log := tool_call_log ?s4 @ [entry]\<rparr>"
  have a: "map_of bad_json_call ''function''
     = Some (JObj [(''name'', JStr ''web_search''), (''arguments'', JStr ''not-json'')])"
    by (simp add: bad_json_call_def)
  have b: "map_of [(''name'', JStr ''web_search''), (''arguments'', JStr ''not-json'')] ''name''
     = Some (JStr ''web_search'')" by simp
  have c: "map_of [(''name'', JStr ''web_search''), (''arguments'', JStr ''not-json'')] ''arguments''
     = Some (JStr ''not-json'')" by simp
  have d: "map_of bad_json_call ''id'' = Some (JStr ''call_1'')"
    by (simp add: bad_json_call_def)
  have bad: "json_loads ?rt ''not-json'' = Inl JSONDecodeError"
    by (simp add: with_runner_simps example_runtime_def example_loads_def)
  have cc: "chat_completion ?rt (messages example_start) (runner_start 0) = (Inr ?r, w1)"
    by (simp add: with_runner_simps example_runtime_def runner_start_def w1_def)
  have tcs: "tool_calls (message ?r) = Some [bad_json_call]"
    by (simp add: tool_call_response_def)
  have now: "utcnow ?rt w1 = (''2025-01-01T00:00:00'', w1)"
    by (simp add: with_runner_simps example_runtime_def runner_start_def w1_def)
  have pc: "process_tool_calls ?rt example_agent [bad_json_call] ?s4 w1 = (None, s5, w1)"
    by (simp add: process_invalid_json[OF a b c d bad] now s5_def entry_def)
  have ph: "current_phase s5 = ''planning''"
    by (simp add: s5_def response_recorded_log determine_phase_def example_start_fields)
  have lg: "tool_call_log s5 = [entry]"
    by (simp add: s5_def response_recorded_log example_start_def seed_messages_def
                  add_message_def AgentState_init_def)
  have cb: "runner_on_step ?rt example_io s5 w1 = (Some JSONDecodeError, w1)"
    unfolding runner_on_step_def ph lg
    by (simp add: runner_start_def w1_def entry_def record_tool_event_def bad)
  have lb: "loop_body ?rt example_agent ?cb example_start (runner_start 0)
              = (Some JSONDecodeError, s5, w1)"
    unfolding loop_body_with_tool_calls[OF cc tcs] pc
    by (simp add: cb)
  have g: "step_count example_start < max_steps example_agent" "\<not> is_complete example_start"
    by (simp_all add: example_start_fields example_agent_def)
  note rl = run_loop_raise[OF g lb]
  have le: "fst (loop_end ?rt example_agent ''What is new?'' (AgentState_init ''r1'') ?cb
                   (runner_start 0))
              = s5\<lparr>error := Some JSONDecodeError\<rparr>"
    unfolding loop_end_def example_start_def[symmetric] rl by simp
  have fields: "step_count s5 = 1" "\<not> is_complete s5" "report_drafts s5 = []"
    "messages s5 = messages example_start @
        [message ?r,
         \<lparr>role = ''tool'', content = Some ''Invalid JSON in tool arguments: not-json'',
          tool_calls = None, tool_call_id = Some (JStr ''call_1''), name = None\<rparr>]"
    by (simp_all add: s5_def response_recorded_fields example_start_fields)
  have fin: "ensure_final_report (s5\<lparr>error := Some JSONDecodeError\<rparr>)
               = s5\<lparr>error := Some JSONDecodeError\<rparr>"
    by (simp add: ensure_final_report_def fields example_start_fields tool_call_response_def
                  str_truthy_def)
  have eq: "not_json_run = s5\<lparr>error := Some JSONDecodeError\<rparr>"
    unfolding not_json_run_def run_def by (simp add: case_prod_beta le fin)
  show ?thesis unfolding eq by (simp add: fields)
qed

section \<open>Claims from cross-validation\<close>

text \<open>
  Claim C6 as stated fails: the output of cross_validate is an object without any of
  the three fields, and a claim entry is appended all the same, with the defaults.
\<close>

theorem cross_validate_empty_object:
  "claims (fst (snd (extract_evidence (example_runtime []) cross_validate_call
       \<lparr>success = True, tool_output = JObj [], tool_error = None, metadata = []\<rparr>
       (AgentState_init ''r1'') 0)))
   = [\<lparr>claim_text = JStr [], status = JStr ''uncertain'', supporting_sources = JInt 0\<rparr>]"
  by (simp add: extract_evidence_def cross_validate_call_def AgentState_init_def dict_get_def)

text \<open>
  Claim C6, amended. For a tool call of cross_validate, extraction appends exactly one
  claim entry if the output is an object and none otherwise; the entry takes \<open>claim\<close>,
  \<open>status\<close> and \<open>supporting_sources\<close> from the object, and a field the object lacks
  is the empty text, "uncertain" and 0 respectively. Nothing else of the state changes
  and nothing is raised. So the output
  \<open>{"claim": "X", "status": "supported", "supporting_sources": 2}\<close> appends one entry
  with text X, status supported and 2 supporting sources.
\<close>

theorem cross_validate_claims:
  assumes "map_of tc ''function'' = Some (JObj f)" and "map_of f ''name'' = Some (JStr ''cross_validate'')"
  shows "extract_evidence rt tc r s w =
           (None,
            s\<lparr>claims := claims s @
                 (case tool_output r of
                    JObj d \<Rightarrow> [\<lparr>claim_text = dict_get d ''claim'' (JStr []),
                                status = dict_get d ''status'' (JStr ''uncertain''),
                                supporting_sources = dict_get d ''supporting_sources'' (JInt 0)\<rparr>]
                  | _ \<Rightarrow> [])\<rparr>,
            w)"
  using assms by (simp add: extract_evidence_def split: json.splits)

theorem cross_validate_claims_witness:
  "map_of cross_validate_call ''function''
     = Some (JObj [(''name'', JStr ''cross_validate''), (''arguments'', JStr ''{}'')])
   \<and> map_of [(''name'', JStr ''cross_validate''), (''arguments'', JStr ''{}'')] ''name''
     = Some (JStr ''cross_validate'')
   \<and> extract_evidence (example_runtime []) cross_validate_call
        \<lparr>success = True,
         tool_output = JObj [(''claim'', JStr ''X''), (''status'', JStr ''supported''),
                             (''supporting_sources'', JInt 2)],
         tool_error = None, metadata = []\<rparr>
        (AgentState_init ''r1'') 0
     = (None,
        (AgentState_init ''r1'')
          \<lparr>claims := [\<lparr>claim_text = JStr ''X'', status = JStr ''supported'',
                        supporting_sources = JInt 2\<rparr>]\<rparr>,
        0)"
proof -
  have a: "map_of cross_validate_call ''function''
     = Some (JObj [(''name'', JStr ''cross_validate''), (''arguments'', JStr ''{}'')])"
    by (simp add: cross_validate_call_def)
  have b: "map_of [(''name'', JStr ''cross_validate''), (''arguments'', JStr ''{}'')] ''name''
     = Some (JStr ''cross_validate'')" by simp
  have c: "claims (AgentState_init ''r1'') = []" by (simp add: AgentState_init_def)
  show ?thesis
    using cross_validate_claims[OF a b, of "example_runtime []"
        "\<lparr>success = True,
         tool_output = JObj [(''claim'', JStr ''X''), (''status'', JStr ''supported''),
                             (''supporting_sources'', JInt 2)],
         tool_error = None, metadata = []\<rparr>" "AgentState_init ''r1''" 0] a b c
    by (simp add: dict_get_def)
qed

section \<open>Tool calls that are not well formed\<close>

lemma execute_malformed:
  assumes "malformed_call tc"
  shows "\<exists>e. \<forall>w. execute_tool_call rt agent tc w = (Inl e, w)"
proof (cases "map_of tc ''function''")
  case None
  then have "\<forall>w. execute_tool_call rt agent tc w = (Inl (KeyError ''function''), w)"
    by (simp add: execute_tool_call_def)
  then show ?thesis by blast
next
  case (Some func)
  show ?thesis
  proof (cases "py_getitem func ''name''")
    case (Inl e)
    with Some have "\<forall>w. execute_tool_call rt agent tc w = (Inl e, w)"
      by (simp add: execute_tool_call_def)
    then show ?thesis by blast
  next
    case (Inr nm)
    then obtain f where f: "func = JObj f" by (cases func) auto
    show ?thesis
    proof (cases "map_of f ''arguments''")
      case None
      with Some Inr f have "\<forall>w. execute_tool_call rt agent tc w = (Inl (KeyError ''arguments''), w)"
        by (simp add: execute_tool_call_def)
      then show ?thesis by blast
    next
      case (Some a)
      with assms \<open>map_of tc ''function'' = Some func\<close> f
      have "\<forall>w. execute_tool_call rt agent tc w = (Inl TypeError, w)"
        using Inr by (cases a) (simp_all add: execute_tool_call_def malformed_call_def)
      then show ?thesis by blast
    qed
  qed
qed

lemma process_raising_call:
  assumes "execute_tool_call rt agent tc w = (Inl e, w)"
  shows "process_tool_calls rt agent (tc # rest) s w = (Some e, s, w)"
  using assms by (simp add: process_tool_call_def)

text \<open>
  Claim C9. Only a JSON decoding failure is recovered. For a tool call whose
  \<open>function\<close> entry is missing, or whose \<open>arguments\<close> entry is missing, or whose
  \<open>arguments\<close> value is not a string (for example null), \<open>_execute_tool_call\<close> raises
  an exception; the exception leaves the loop over the tool calls of the response,
  whatever calls came before it, and the handler of the loop records it as the error of
  the run and ends the loop at once: no callback, no further request to the backend.
\<close>

theorem malformed_call_aborts:
  assumes "malformed_call tc"
  shows "\<exists>e. (\<forall>w. execute_tool_call rt agent tc w = (Inl e, w))
           \<and> (\<forall>pre s s1 w0 w. process_tool_calls rt agent pre s w0 = (None, s1, w)
                 \<longrightarrow> process_tool_calls rt agent (pre @ tc # rest) s w0 = (Some e, s1, w))
           \<and> (\<forall>s w0 w r cb. step_count s < max_steps agent \<and> \<not> is_complete s
                 \<and> chat_completion rt (messages s) w0 = (Inr r, w)
                 \<and> tool_calls (message r) = Some (tc # rest)
               \<longrightarrow> run_loop rt agent cb s w0
                     = ((response_recorded rt agent s r)\<lparr>error := Some e\<rparr>, w))"
proof -
  from execute_malformed[OF assms, of rt agent]
  obtain e where e: "\<And>w. execute_tool_call rt agent tc w = (Inl e, w)" by blast
  have a: "process_tool_calls rt agent (pre @ tc # rest) s w0 = (Some e, s1, w)"
    if "process_tool_calls rt agent pre s w0 = (None, s1, w)" for pre s s1 w0 w
    using process_tool_calls_append[OF that, of "tc # rest"] process_raising_call[OF e]
    by simp
  have b: "run_loop rt agent cb s w0 = ((response_recorded rt agent s r)\<lparr>error := Some e\<rparr>, w)"
    if h: "step_count s < max_steps agent \<and> \<not> is_complete s
                 \<and> chat_completion rt (messages s) w0 = (Inr r, w)
                 \<and> tool_calls (message r) = Some (tc # rest)" for s w0 w r cb
  proof -
    from h have cc: "chat_completion rt (messages s) w0 = (Inr r, w)"
      and tcs: "tool_calls (message r) = Some (tc # rest)" by simp_all
    have "loop_body rt agent cb s w0 = (Some e, response_recorded rt agent s r, w)"
      unfolding loop_body_with_tool_calls[OF cc tcs] process_raising_call[OF e] by simp
    with h show ?thesis by (simp add: run_loop_raise)
  qed
  from e a b show ?thesis by blast
qed


theorem malformed_call_aborts_witness:
  "malformed_call null_arguments_call
   \<and> execute_tool_call (example_runtime [Inr (tool_call_response [null_arguments_call])])
         example_agent null_arguments_call 1 = (Inl TypeError, 1)
   \<and> step_count example_start < max_steps example_agent
   \<and> \<not> is_complete example_start
   \<and> chat_completion (example_runtime [Inr (tool_call_response [null_arguments_call])])
         (messages example_start) 0
       = (Inr (tool_call_response [null_arguments_call]), 1)
   \<and> tool_calls (message (tool_call_response [null_arguments_call])) = Some [null_arguments_call]
   \<and> run_loop (example_runtime [Inr (tool_call_response [null_arguments_call])])
         example_agent None example_start 0
       = ((response_recorded (example_runtime [Inr (tool_call_response [null_arguments_call])])
             example_agent example_start (tool_call_response [null_arguments_call]))
            \<lparr>error := Some TypeError\<rparr>, 1)"
proof -
  let ?rt = "example_runtime [Inr (tool_call_response [null_arguments_call])]"
  have m: "malformed_call null_arguments_call"
    by (simp add: malformed_call_def null_arguments_call_def)
  have x: "execute_tool_call ?rt example_agent null_arguments_call 1 = (Inl TypeError, 1)"
    by (simp add: execute_tool_call_def null_arguments_call_def)
  have h: "step_count example_start < max_steps example_agent \<and> \<not> is_complete example_start
     \<and> chat_completion ?rt (messages example_start) 0
         = (Inr (tool_call_response [null_arguments_call]), 1)
     \<and> tool_calls (message (tool_call_response [null_arguments_call])) = Some [null_arguments_call]"
    by (simp add: example_start_fields example_agent_def example_runtime_def
                  tool_call_response_def)
  from malformed_call_aborts[OF m, of ?rt example_agent "[]"]
  obtain e where e: "\<forall>w. execute_tool_call ?rt example_agent null_arguments_call w = (Inl e, w)"
    and r: "\<forall>s w0 w r cb. step_count s < max_steps example_agent \<and> \<not> is_complete s
                 \<and> chat_completion ?rt (messages s) w0 = (Inr r, w)
                 \<and> tool_calls (message r) = Some [null_arguments_call]
               \<longrightarrow> run_loop ?rt example_agent cb s w0
                     = ((response_recorded ?rt example_agent s r)\<lparr>error := Some e\<rparr>, w)"
    by blast
  from e x have "e = TypeError" by simp
  with r h have "run_loop ?rt example_agent None example_start 0
       = ((response_recorded ?rt example_agent example_start
             (tool_call_response [null_arguments_call]))\<lparr>error := Some TypeError\<rparr>, 1)"
    by blast
  with m x h show ?thesis by blast
qed

section \<open>The run and its drafts\<close>

lemma check_completion_drafts:
  "(is_complete s \<longrightarrow> report_drafts s \<noteq> []) \<Longrightarrow>
   (is_complete (check_completion r s) \<longrightarrow> report_drafts (check_completion r s) \<noteq> [])"
  by (simp add: check_completion_def Let_def)

lemma loop_body_drafts:
  assumes "loop_body rt agent cb s w = (x, s1, w1)"
      and "is_complete s \<longrightarrow> report_drafts s \<noteq> []"
  shows "is_complete s1 \<longrightarrow> report_drafts s1 \<noteq> []"
proof (cases "chat_completion rt (messages s) w")
  case (Pair res w')
  show ?thesis
  proof (cases res)
    case (Inl e)
    with Pair assms show ?thesis by (auto simp: loop_body_def Let_def)
  next
    case (Inr r)
    let ?s4 = "response_recorded rt agent s r"
    have inv4: "is_complete ?s4 \<longrightarrow> report_drafts ?s4 \<noteq> []"
      using assms(2) by (simp add: response_recorded_fields)
    show ?thesis
    proof (cases "has_tool_calls r")
      case True
      obtain y s5 w5 where p: "process_tool_calls rt agent (the (tool_calls (message r))) ?s4 w' = (y, s5, w5)"
        by (cases "process_tool_calls rt agent (the (tool_calls (message r))) ?s4 w'") auto
      from process_tool_calls_frame[OF p] inv4
      have inv5: "is_complete s5 \<longrightarrow> report_drafts s5 \<noteq> []" by simp
      have "s1 = s5"
        using assms(1) Pair Inr True p
        by (auto simp: loop_body_def Let_def response_recorded_def
                 split: option.splits prod.splits)
      with inv5 show ?thesis by simp
    next
      case False
      have "s1 = check_completion r ?s4"
        using assms(1) Pair Inr False
        by (auto simp: loop_body_def Let_def response_recorded_def
                 split: option.splits prod.splits)
      with check_completion_drafts[OF inv4, of r] show ?thesis by simp
    qed
  qed
qed

lemma run_loop_invariant:
  assumes "step_count s \<le> max_steps agent"
      and "is_complete s \<longrightarrow> report_drafts s \<noteq> []"
  shows "step_count (fst (run_loop rt agent cb s w)) \<le> max_steps agent
       \<and> (is_complete (fst (run_loop rt agent cb s w))
            \<longrightarrow> report_drafts (fst (run_loop rt agent cb s w)) \<noteq> [])"
  using assms
proof (induction rt agent cb s w rule: run_loop.induct)
  case (1 rt agent on_step s w)
  show ?case
  proof (cases "step_count s < max_steps agent \<and> \<not> is_complete s")
    case False
    then have "run_loop rt agent on_step s w = (s, w)" by (rule run_loop_stop)
    with "1.prems" show ?thesis by simp
  next
    case True
    obtain x s1 w1 where lb: "loop_body rt agent on_step s w = (x, s1, w1)"
      by (cases "loop_body rt agent on_step s w") auto
    from loop_body_step_count[OF lb] True have sc: "step_count s1 \<le> max_steps agent" by simp
    from loop_body_drafts[OF lb "1.prems"(2)]
    have dr: "is_complete s1 \<longrightarrow> report_drafts s1 \<noteq> []" .
    show ?thesis
    proof (cases x)
      case None
      with True lb have eq: "run_loop rt agent on_step s w = run_loop rt agent on_step s1 w1"
        by (simp add: run_loop_continue)
      from "1.IH"[OF True lb[symmetric] None refl sc dr] show ?thesis
        unfolding eq by simp
    next
      case (Some e)
      with True lb have "run_loop rt agent on_step s w = (s1\<lparr>error := Some e\<rparr>, w1)"
        by (simp add: run_loop_raise)
      with sc dr show ?thesis by simp
    qed
  qed
qed

lemma find_append_last:
  "List.find P (xs @ [x]) = (case List.find P xs of None \<Rightarrow> (if P x then Some x else None) | Some y \<Rightarrow> Some y)"
  by (induction xs) auto

lemma str_truthy_iff: "str_truthy c = (c \<noteq> None \<and> c \<noteq> Some [])"
  by (cases c) (simp_all add: str_truthy_def)

lemma backward_scan:
  "(case List.find (\<lambda>m. role m = ''assistant'' \<and> str_truthy (content m)) (rev ms) of
      None \<Rightarrow> None | Some m \<Rightarrow> content m)
   = most_recent_assistant_text ms"
proof (induction ms)
  case Nil
  then show ?case by simp
next
  case (Cons m ms)
  show ?case
  proof (cases "List.find (\<lambda>m. role m = ''assistant'' \<and> str_truthy (content m)) (rev ms)")
    case None
    with Cons show ?thesis by (simp add: find_append_last str_truthy_iff)
  next
    case (Some y)
    then have "str_truthy (content y)" by (auto simp: find_Some_iff)
    then obtain c where "content y = Some c" by (auto simp: str_truthy_iff)
    with Some Cons have mr: "most_recent_assistant_text ms = Some c" by simp
    show ?thesis by (simp add: find_append_last Some mr \<open>content y = Some c\<close>)
  qed
qed


lemma loop_body_without_tool_calls:
  assumes "chat_completion rt (messages s) w = (Inr r, w1)"
      and "tool_calls (message r) = None"
  shows "loop_body rt agent None s w
           = (None, check_completion r (response_recorded rt agent s r), w1)"
  using assms
  by (simp add: loop_body_def response_recorded_def Let_def has_tool_calls_def)

lemma loop_body_backend_error:
  assumes "chat_completion rt (messages s) w = (Inl e, w1)"
  shows "loop_body rt agent cb s w
           = (Some e,
              s\<lparr>step_count := step_count s + 1,
                current_phase := determine_phase rt agent (s\<lparr>step_count := step_count s + 1\<rparr>)\<rparr>,
              w1)"
  using assms by (simp add: loop_body_def Let_def)

lemma seed_messages_fields:
  "step_count (seed_messages agent q s) = step_count s"
  "is_complete (seed_messages agent q s) = is_complete s"
  "report_drafts (seed_messages agent q s) = report_drafts s"
  by (simp_all add: seed_messages_def add_message_def)

lemma ensure_final_report_fields:
  "step_count (ensure_final_report s) = step_count s"
  "is_complete (ensure_final_report s) = is_complete s"
  "error (ensure_final_report s) = error s"
  "messages (ensure_final_report s) = messages s"
  by (simp_all add: ensure_final_report_def split: option.splits)

lemma ensure_final_report_kept:
  "report_drafts s \<noteq> [] \<Longrightarrow> ensure_final_report s = s"
  by (simp add: ensure_final_report_def)

lemma ensure_final_report_fallback:
  assumes "report_drafts s = []"
  shows "report_drafts (ensure_final_report s)
           = (case most_recent_assistant_text (messages s) of None \<Rightarrow> [] | Some c \<Rightarrow> [c])"
proof (cases "messages s = []")
  case True
  with assms show ?thesis by (simp add: ensure_final_report_def)
next
  case False
  show ?thesis
  proof (cases "List.find (\<lambda>m. role m = ''assistant'' \<and> str_truthy (content m)) (rev (messages s))")
    case None
    with backward_scan[of "messages s"] have "most_recent_assistant_text (messages s) = None"
      by simp
    with None assms False show ?thesis by (simp add: ensure_final_report_def)
  next
    case (Some m)
    then have "str_truthy (content m)" by (auto simp: find_Some_iff)
    then obtain c where c: "content m = Some c" by (auto simp: str_truthy_iff)
    with Some backward_scan[of "messages s"]
    have "most_recent_assistant_text (messages s) = Some c" by simp
    with Some c assms False show ?thesis by (simp add: ensure_final_report_def)
  qed
qed

text \<open>
  Claim C1. Let \<open>run\<close> start from a state whose step count does not exceed
  \<open>max_steps\<close> and which is not complete without a draft; the state made by
  \<open>AgentState.__init__\<close> is one whenever \<open>max_steps\<close> is not negative. Then, whatever
  the backend, the tools and the callback do, the state that \<open>run\<close> returns has a step
  count of at most \<open>max_steps\<close>, and if it is complete it has a draft. If the loop
  ends with no draft, the fallback leaves exactly one draft, the text of the most
  recent assistant message with non-empty content, or no draft when there is no such
  message; if the loop ends with a draft, the fallback changes nothing.
\<close>

theorem run_invariants:
  assumes "step_count s0 \<le> max_steps agent"
      and "is_complete s0 \<longrightarrow> report_drafts s0 \<noteq> []"
  shows "step_count (fst (run rt agent q s0 cb w)) \<le> max_steps agent
       \<and> (is_complete (fst (run rt agent q s0 cb w))
            \<longrightarrow> report_drafts (fst (run rt agent q s0 cb w)) \<noteq> [])
       \<and> (report_drafts (fst (loop_end rt agent q s0 cb w)) = []
            \<longrightarrow> report_drafts (fst (run rt agent q s0 cb w))
                  = (case most_recent_assistant_text (messages (fst (loop_end rt agent q s0 cb w))) of
                       None \<Rightarrow> []
                     | Some c \<Rightarrow> [c]))
       \<and> (report_drafts (fst (loop_end rt agent q s0 cb w)) \<noteq> []
            \<longrightarrow> fst (run rt agent q s0 cb w) = fst (loop_end rt agent q s0 cb w))"
proof -
  let ?e = "fst (loop_end rt agent q s0 cb w)"
  have r: "fst (run rt agent q s0 cb w) = ensure_final_report ?e"
    by (simp add: run_def case_prod_beta)
  have inv: "step_count ?e \<le> max_steps agent \<and> (is_complete ?e \<longrightarrow> report_drafts ?e \<noteq> [])"
    unfolding loop_end_def
    by (rule run_loop_invariant) (use assms in \<open>simp_all add: seed_messages_fields\<close>)
  have a: "step_count (ensure_final_report ?e) \<le> max_steps agent"
    using inv by (simp add: ensure_final_report_fields)
  have b: "is_complete (ensure_final_report ?e) \<longrightarrow> report_drafts (ensure_final_report ?e) \<noteq> []"
    using inv by (auto simp: ensure_final_report_fields ensure_final_report_kept)
  have c: "report_drafts ?e = [] \<longrightarrow> report_drafts (ensure_final_report ?e)
                  = (case most_recent_assistant_text (messages ?e) of None \<Rightarrow> [] | Some c \<Rightarrow> [c])"
    by (simp add: ensure_final_report_fallback)
  have d: "report_drafts ?e \<noteq> [] \<longrightarrow> ensure_final_report ?e = ?e"
    by (simp add: ensure_final_report_kept)
  from a b c d show ?thesis unfolding r by blast
qed


lemma example_first_step:
  "chat_completion (example_runtime (Inr r # rest)) msgs 0 = (Inr r, 1)"
  by (simp add: example_runtime_def)

lemma example_script_exhausted:
  "chat_completion (example_runtime [x]) msgs (Suc 0) = (Inl (Raised ''connection closed''), 2)"
  by (simp add: example_runtime_def)

lemma thinking_run_loop_end:
  "report_drafts (fst (loop_end (example_runtime [Inr (text_response ''Let me think.'')])
       example_agent ''What is new?'' (AgentState_init ''r1'') None 0)) = []
   \<and> messages (fst (loop_end (example_runtime [Inr (text_response ''Let me think.'')])
       example_agent ''What is new?'' (AgentState_init ''r1'') None 0))
     = messages example_start @ [message (text_response ''Let me think.'')]
   \<and> error (fst (loop_end (example_runtime [Inr (text_response ''Let me think.'')])
       example_agent ''What is new?'' (AgentState_init ''r1'') None 0))
     = Some (Raised ''connection closed'')
   \<and> step_count (fst (loop_end (example_runtime [Inr (text_response ''Let me think.'')])
       example_agent ''What is new?'' (AgentState_init ''r1'') None 0)) = 2"
proof -
  let ?r = "text_response ''Let me think.''"
  let ?rt = "example_runtime [Inr ?r]"
  let ?s1 = "response_recorded ?rt example_agent example_start ?r"
  have nt: "tool_calls (message ?r) = None" by (simp add: text_response_def)
  have cc: "check_completion ?r ?s1 = ?s1"
    by (simp add: check_completion_def text_response_def str_truthy_def py_in_def Let_def
                  response_recorded_fields example_start_fields)
  have "loop_body ?rt example_agent None example_start 0 = (None, check_completion ?r ?s1, 1)"
    by (rule loop_body_without_tool_calls[OF example_first_step nt])
  then have lb1: "loop_body ?rt example_agent None example_start 0 = (None, ?s1, 1)"
    unfolding cc .
  have g1: "step_count example_start < max_steps example_agent" "\<not> is_complete example_start"
    by (simp_all add: example_start_fields example_agent_def)
  have rl1: "run_loop ?rt example_agent None example_start 0 = run_loop ?rt example_agent None ?s1 1"
    by (rule run_loop_continue[OF g1 lb1])
  have g2: "step_count ?s1 < max_steps example_agent" "\<not> is_complete ?s1"
    by (simp_all add: response_recorded_fields example_start_fields example_agent_def)
  have lb2: "loop_body ?rt example_agent None ?s1 1
      = (Some (Raised ''connection closed''),
         ?s1\<lparr>step_count := step_count ?s1 + 1,
                current_phase := determine_phase ?rt example_agent (?s1\<lparr>step_count := step_count ?s1 + 1\<rparr>)\<rparr>,
         2)"
    by (rule loop_body_backend_error) (simp add: example_runtime_def)
  note rl2 = run_loop_raise[OF g2 lb2]
  show ?thesis
    unfolding loop_end_def example_start_def[symmetric] rl1 rl2
    by (simp add: response_recorded_fields example_start_fields)
qed


theorem run_invariants_witness:
  "step_count (AgentState_init ''r1'') \<le> max_steps example_agent
   \<and> \<not> is_complete (AgentState_init ''r1'')
   \<and> step_count (fst (run (example_runtime [Inr (text_response ''Let me think.'')])
         example_agent ''What is new?'' (AgentState_init ''r1'') None 0))
       \<le> max_steps example_agent
   \<and> report_drafts (fst (loop_end (example_runtime [Inr (text_response ''Let me think.'')])
         example_agent ''What is new?'' (AgentState_init ''r1'') None 0)) = []
   \<and> report_drafts (fst (run (example_runtime [Inr (text_response ''Let me think.'')])
         example_agent ''What is new?'' (AgentState_init ''r1'') None 0))
       = [''Let me think.'']"
proof -
  let ?rt = "example_runtime [Inr (text_response ''Let me think.'')]"
  let ?e = "fst (loop_end ?rt example_agent ''What is new?'' (AgentState_init ''r1'') None 0)"
  have h1: "step_count (AgentState_init ''r1'') \<le> max_steps example_agent"
    by (simp add: AgentState_init_def example_agent_def)
  have h2: "\<not> is_complete (AgentState_init ''r1'')"
    by (simp add: AgentState_init_def)
  then have h2': "is_complete (AgentState_init ''r1'') \<longrightarrow> report_drafts (AgentState_init ''r1'') \<noteq> []"
    by simp
  note t = run_invariants[OF h1 h2', of ?rt "''What is new?''" None 0]
  from thinking_run_loop_end have d: "report_drafts ?e = []"
    and m: "messages ?e = messages example_start @ [message (text_response ''Let me think.'')]"
    by simp_all
  have mr: "most_recent_assistant_text (messages ?e) = Some ''Let me think.''"
    unfolding m by (simp add: example_start_fields text_response_def)
  from t d have "report_drafts (fst (run ?rt example_agent ''What is new?'' (AgentState_init ''r1'') None 0))
      = (case most_recent_assistant_text (messages ?e) of None \<Rightarrow> [] | Some c \<Rightarrow> [c])"
    by blast
  then have r: "report_drafts (fst (run ?rt example_agent ''What is new?'' (AgentState_init ''r1'') None 0))
      = [''Let me think.'']"
    unfolding mr by simp
  from t have s: "step_count (fst (run ?rt example_agent ''What is new?'' (AgentState_init ''r1'') None 0))
       \<le> max_steps example_agent" by blast
  from h1 h2 s d r show ?thesis by blast
qed

section \<open>The report markers\<close>

lemma check_completion_markers:
  assumes "content (message r) = Some c"
      and "py_find ''<report>'' c = Some i" and "py_find ''</report>'' c = Some j"
  shows "check_completion r s =
           s\<lparr>is_complete := True,
             report_drafts := report_drafts s @ [py_strip (py_slice c (i + length ''<report>'') j)]\<rparr>"
proof -
  from assms(2) have "c \<noteq> []" by (cases c) auto
  with assms show ?thesis
    by (simp add: check_completion_def str_truthy_def py_in_def extract_report_def Let_def)
qed

lemma report_between_first_markers:
  assumes c: "content (message r) = Some (pre @ ''<report>'' @ body @ ''</report>'' @ post)"
      and i: "py_find ''<report>'' (pre @ ''<report>'' @ body @ ''</report>'' @ post)
               = Some (length pre)"
      and j: "py_find ''</report>'' (pre @ ''<report>'' @ body @ ''</report>'' @ post)
               = Some (length (pre @ ''<report>'' @ body))"
  shows "check_completion r s =
           s\<lparr>is_complete := True, report_drafts := report_drafts s @ [py_strip body]\<rparr>"
proof -
  have "py_slice (pre @ ''<report>'' @ body @ ''</report>'' @ post)
          (length pre + length ''<report>'') (length (pre @ ''<report>'' @ body)) = body"
    by (simp add: py_slice_def)
  with check_completion_markers[OF c i j, of s] show ?thesis by simp
qed

lemma immediate_report:
  "step_count (fst (run (example_runtime [Inr (text_response ''<report>OK</report>'')])
          example_agent ''What is new?'' (AgentState_init ''r1'') None 0)) = 1
   \<and> is_complete (fst (run (example_runtime [Inr (text_response ''<report>OK</report>'')])
          example_agent ''What is new?'' (AgentState_init ''r1'') None 0))
   \<and> report_drafts (fst (run (example_runtime [Inr (text_response ''<report>OK</report>'')])
          example_agent ''What is new?'' (AgentState_init ''r1'') None 0)) = [''OK'']
   \<and> error (fst (run (example_runtime [Inr (text_response ''<report>OK</report>'')])
          example_agent ''What is new?'' (AgentState_init ''r1'') None 0)) = None"
proof -
  let ?r = "text_response ''<report>OK</report>''"
  let ?rt = "example_runtime [Inr ?r]"
  let ?s1 = "response_recorded ?rt example_agent example_start ?r"
  let ?s2 = "?s1\<lparr>is_complete := True, report_drafts := [''OK'']\<rparr>"
  have nt: "tool_calls (message ?r) = None" by (simp add: text_response_def)
  have cc: "check_completion ?r ?s1 = ?s2"
    by (simp add: check_completion_def text_response_def str_truthy_def py_in_def Let_def
                  extract_report_def py_slice_def py_strip_def is_space_def
                  response_recorded_fields example_start_fields)
  have "loop_body ?rt example_agent None example_start 0 = (None, check_completion ?r ?s1, 1)"
    by (rule loop_body_without_tool_calls[OF example_first_step nt])
  then have lb1: "loop_body ?rt example_agent None example_start 0 = (None, ?s2, 1)"
    unfolding cc .
  have g1: "step_count example_start < max_steps example_agent" "\<not> is_complete example_start"
    by (simp_all add: example_start_fields example_agent_def)
  have rl1: "run_loop ?rt example_agent None example_start 0 = run_loop ?rt example_agent None ?s2 1"
    by (rule run_loop_continue[OF g1 lb1])
  have rl2: "run_loop ?rt example_agent None ?s2 1 = (?s2, 1)"
    by (rule run_loop_stop) simp
  have le: "fst (loop_end ?rt example_agent ''What is new?'' (AgentState_init ''r1'') None 0) = ?s2"
    unfolding loop_end_def example_start_def[symmetric] rl1 rl2 by simp
  have "fst (run ?rt example_agent ''What is new?'' (AgentState_init ''r1'') None 0) = ?s2"
    by (simp add: run_def case_prod_beta le ensure_final_report_kept)
  then show ?thesis
    by (simp add: response_recorded_fields example_start_fields)
qed

text \<open>
  Claim C2, at an input where the code departs from it. The content
  \<open></report> <report>A</report>\<close> has the opening marker and a closing marker after
  it, with the text A between them. The code takes the first occurrence of each marker
  wherever it stands, so the slice ends before it starts: the run is marked complete
  and the draft is the empty text, not A.
\<close>

theorem report_after_stray_closing_marker:
  "check_completion (text_response ''</report> <report>A</report>'') example_start
     = example_start\<lparr>is_complete := True, report_drafts := [[]]\<rparr>"
  by (simp add: check_completion_def text_response_def str_truthy_def py_in_def
                extract_report_def py_slice_def py_strip_def example_start_fields Let_def)

section \<open>Streamed completion: the text\<close>






section \<open>Streamed completion: the tool calls\<close>

lemma map_of_update_call:
  "map_of (update_call acc i g) j = (if j = i then map_option g (map_of acc i) else map_of acc j)"
  by (induction acc) auto

lemma map_of_snoc_new:
  "map_of acc i = None \<Longrightarrow> map_of (acc @ [(i, c)]) j = (if j = i then Some c else map_of acc j)"
  by (induction acc) (auto split: if_splits)

lemma map_of_accumulate_fragment:
  "map_of (accumulate_fragment acc tc) i =
     (if i = index tc
      then Some (apply_fragment tc
             (case map_of acc i of
                None \<Rightarrow> \<lparr>call_id = [], call_name = first_name tc, call_arguments = []\<rparr>
              | Some c \<Rightarrow> c))
      else map_of acc i)"
proof (cases "map_of acc (index tc)")
  case None
  then show ?thesis
    by (cases "delta_function tc"; cases "delta_id tc")
       (auto simp: accumulate_fragment_def Let_def map_of_update_call map_of_snoc_new
                   apply_fragment_def first_name_def supplied_name_def argument_text_def
                   str_truthy_def
             simp del: map_of_append
             split: option.splits)
next
  case (Some c)
  then show ?thesis
    by (cases "delta_function tc"; cases "delta_id tc")
       (auto simp: accumulate_fragment_def Let_def map_of_update_call
                   apply_fragment_def first_name_def supplied_name_def argument_text_def
                   str_truthy_def
             split: option.splits)
qed


lemma supplied_names_snoc:
  "supplied_names (xs @ [f]) = supplied_names xs @ (case supplied_name f of None \<Rightarrow> [] | Some n \<Rightarrow> [n])"
  by (simp add: supplied_names_def)

lemma supplied_ids_snoc:
  "supplied_ids (xs @ [f]) = supplied_ids xs @ (if str_truthy (delta_id f) then [the (delta_id f)] else [])"
  by (simp add: supplied_ids_def)

lemma reassembled_single:
  "reassembled [f] = apply_fragment f \<lparr>call_id = [], call_name = first_name f, call_arguments = []\<rparr>"
  by (simp add: reassembled_def apply_fragment_def supplied_names_def supplied_ids_def
           split: option.splits)

lemma reassembled_snoc:
  "xs \<noteq> [] \<Longrightarrow> reassembled (xs @ [f]) = apply_fragment f (reassembled xs)"
  by (simp add: reassembled_def apply_fragment_def supplied_names_snoc supplied_ids_snoc
           split: option.splits)

lemma accumulate_fragments_snoc:
  "accumulate_fragments acc (fs @ [f]) = accumulate_fragment (accumulate_fragments acc fs) f"
  by (simp add: accumulate_fragments_def)

lemma accumulate_lookup:
  "map_of (accumulate_fragments [] fs) i =
     (if fragments_of i fs = [] then None else Some (reassembled (fragments_of i fs)))"
proof (induction fs rule: rev_induct)
  case Nil
  then show ?case by (simp add: accumulate_fragments_def fragments_of_def)
next
  case (snoc f fs)
  show ?case
  proof (cases "i = index f")
    case False
    then have "fragments_of i (fs @ [f]) = fragments_of i fs" by (simp add: fragments_of_def)
    with False snoc show ?thesis
      by (simp add: accumulate_fragments_snoc map_of_accumulate_fragment)
  next
    case True
    then have fr: "fragments_of i (fs @ [f]) = fragments_of i fs @ [f]"
      by (simp add: fragments_of_def)
    show ?thesis
    proof (cases "fragments_of i fs = []")
      case True
      with snoc \<open>i = index f\<close> fr show ?thesis
        by (simp add: accumulate_fragments_snoc map_of_accumulate_fragment reassembled_single)
    next
      case False
      with snoc \<open>i = index f\<close> fr show ?thesis
        by (simp add: accumulate_fragments_snoc map_of_accumulate_fragment reassembled_snoc)
    qed
  qed
qed

text \<open>
  Claim C4 as stated fails: the first fragment for stream index 0 supplies the name
  \<open>web_search\<close>, a later fragment for the same index supplies \<open>web_browse\<close>, and the
  reassembled call is named \<open>web_browse\<close>. Its arguments are the two argument texts in
  arrival order.
\<close>

theorem later_name_replaces_first:
  "supplied_name first_fragment = Some ''web_search''
   \<and> map_of (accumulate_fragments []
         (stream_fragments [example_chunk first_fragment, example_chunk renaming_fragment])) 0
     = Some \<lparr>call_id = ''call_1'', call_name = Some ''web_browse'', call_arguments = ''{}''\<rparr>"
  by (simp add: supplied_name_def first_fragment_def renaming_fragment_def example_chunk_def
                stream_fragments_def accumulate_fragments_def accumulate_fragment_def
                str_truthy_def Let_def)

text \<open>
  Claim C4, amended. For every finite sequence of chunks and every stream index, the
  accumulator holds a call for the index exactly when a fragment with that index was
  processed; the name of the call is the last non-empty name a fragment for the index
  supplied (when none supplied one, the name the first fragment for the index came
  with), its id is the last non-empty id supplied (the empty text when none was), and
  its arguments string is the concatenation, in arrival order, of the argument texts of
  all fragments for the index.
\<close>

theorem reassembled_calls:
  "map_of (accumulate_fragments [] (stream_fragments chunks)) i =
     (if fragments_of i (stream_fragments chunks) = [] then None
      else Some (reassembled (fragments_of i (stream_fragments chunks))))"
  by (rule accumulate_lookup)

lemma accumulate_fragments_append:
  "accumulate_fragments acc (xs @ ys) = accumulate_fragments (accumulate_fragments acc xs) ys"
  by (simp add: accumulate_fragments_def)

lemma stream_loop_silent:
  "stream_loop st chunks = [] \<Longrightarrow> stream_fragments chunks = []"
proof (induction chunks arbitrary: st)
  case Nil
  then show ?case by (simp add: stream_fragments_def)
next
  case (Cons chunk rest)
  then show ?case
    by (cases "choices chunk") (auto simp: stream_fragments_def case_prod_beta)
qed

lemma stream_fragments_Cons:
  "stream_fragments (chunk # rest) =
     (case choices chunk of
        [] \<Rightarrow> []
      | ch # others \<Rightarrow> (case delta_tool_calls (delta ch) of None \<Rightarrow> [] | Some tcs \<Rightarrow> tcs))
     @ stream_fragments rest"
  by (simp add: stream_fragments_def)

lemma final_snapshot_calls:
  "stream_loop st chunks \<noteq> [] \<Longrightarrow>
   tool_calls (message (last (stream_loop st chunks)))
     = (if accumulate_fragments (snd st) (stream_fragments chunks) = [] then None
        else Some (map (\<lambda>p. call_dict (snd p))
                    (accumulate_fragments (snd st) (stream_fragments chunks))))"
proof (induction chunks arbitrary: st)
  case Nil
  then show ?case by simp
next
  case (Cons chunk rest)
  show ?case
  proof (cases "choices chunk")
    case Nil
    with Cons show ?thesis by (simp add: stream_fragments_Cons)
  next
    case (Cons ch others)
    obtain st1 s where ss: "stream_step st ch = (st1, s)" by (cases "stream_step st ch") auto
    have acc1: "snd st1 = accumulate_fragments (snd st)
                  (case delta_tool_calls (delta ch) of None \<Rightarrow> [] | Some tcs \<Rightarrow> tcs)"
      using ss by (auto simp: stream_step_def Let_def accumulate_fragments_def split: option.splits)
    have snap: "tool_calls (message s) = (if snd st1 = [] then None
                  else Some (map (\<lambda>p. call_dict (snd p)) (snd st1)))"
      using ss by (auto simp: stream_step_def Let_def)
    have fr: "accumulate_fragments (snd st) (stream_fragments (chunk # rest))
                = accumulate_fragments (snd st1) (stream_fragments rest)"
      by (simp add: stream_fragments_Cons Cons acc1 accumulate_fragments_append)
    show ?thesis
    proof (cases "stream_loop st1 rest = []")
      case True
      from stream_loop_silent[OF True] have "stream_fragments rest = []" .
      with fr have "accumulate_fragments (snd st) (stream_fragments (chunk # rest)) = snd st1"
        by (simp add: accumulate_fragments_def)
      with True Cons ss snap show ?thesis by simp
    next
      case False
      from Cons.IH[OF False] False Cons ss fr show ?thesis by simp
    qed
  qed
qed

end
